theory Spec2Isabelle
  imports Complex_Main "HOL-Library.Word"
begin

section \<open>JavaScript numbers\<close>

text \<open>
  The analysis core of hookshot (\<^verbatim>\<open>src/energy.js\<close>, \<^verbatim>\<open>src/sections.js\<close> and the method
  selection of \<^verbatim>\<open>src/index.js\<close>) computes with JavaScript numbers. A number is modelled
  as an exact real or one of the three special values. Rounding to binary floating point
  (and to single precision on a store into a \<^verbatim>\<open>Float32Array\<close>), overflow to infinity and
  the sign of zero are outside the model: every finite result is the exact real result.
  Loop counters, lengths and indices are \<open>nat\<close> or \<open>int\<close>.
\<close>

datatype jsnum = Fin real | PInf | NInf | NaN

text \<open>The infinity a non-zero finite value gives when divided by zero or multiplied by
  infinity, \<open>NaN\<close> for zero.\<close>

definition inf_sign :: "real \<Rightarrow> jsnum" where
  "inf_sign s = (if 0 < s then PInf else if s < 0 then NInf else NaN)"

fun jneg :: "jsnum \<Rightarrow> jsnum" where
  "jneg (Fin a) = Fin (- a)"
| "jneg PInf = NInf"
| "jneg NInf = PInf"
| "jneg NaN = NaN"

fun jadd :: "jsnum \<Rightarrow> jsnum \<Rightarrow> jsnum" where
  "jadd (Fin a) (Fin b) = Fin (a + b)"
| "jadd NaN _ = NaN"
| "jadd _ NaN = NaN"
| "jadd PInf NInf = NaN"
| "jadd NInf PInf = NaN"
| "jadd PInf _ = PInf"
| "jadd _ PInf = PInf"
| "jadd NInf _ = NInf"
| "jadd _ NInf = NInf"

definition jsub :: "jsnum \<Rightarrow> jsnum \<Rightarrow> jsnum" where
  "jsub a b = jadd a (jneg b)"

fun jmul :: "jsnum \<Rightarrow> jsnum \<Rightarrow> jsnum" where
  "jmul (Fin a) (Fin b) = Fin (a * b)"
| "jmul NaN _ = NaN"
| "jmul _ NaN = NaN"
| "jmul (Fin a) PInf = inf_sign a"
| "jmul (Fin a) NInf = inf_sign (- a)"
| "jmul PInf (Fin b) = inf_sign b"
| "jmul NInf (Fin b) = inf_sign (- b)"
| "jmul PInf PInf = PInf"
| "jmul NInf NInf = PInf"
| "jmul PInf NInf = NInf"
| "jmul NInf PInf = NInf"

fun jdiv :: "jsnum \<Rightarrow> jsnum \<Rightarrow> jsnum" where
  "jdiv (Fin a) (Fin b) = (if b = 0 then inf_sign a else Fin (a / b))"
| "jdiv NaN _ = NaN"
| "jdiv _ NaN = NaN"
| "jdiv (Fin a) PInf = Fin 0"
| "jdiv (Fin a) NInf = Fin 0"
| "jdiv PInf (Fin b) = (if b < 0 then NInf else PInf)"
| "jdiv NInf (Fin b) = (if b < 0 then PInf else NInf)"
| "jdiv _ _ = NaN"

text \<open>\<^verbatim>\<open>Math.sqrt\<close>, \<^verbatim>\<open>Math.cos\<close>, \<^verbatim>\<open>Math.hypot\<close>, \<^verbatim>\<open>Math.floor\<close>, \<^verbatim>\<open>Math.round\<close>.\<close>

fun jsqrt :: "jsnum \<Rightarrow> jsnum" where
  "jsqrt (Fin a) = (if a < 0 then NaN else Fin (sqrt a))"
| "jsqrt PInf = PInf"
| "jsqrt NInf = NaN"
| "jsqrt NaN = NaN"

fun jcos :: "jsnum \<Rightarrow> jsnum" where
  "jcos (Fin a) = Fin (cos a)"
| "jcos _ = NaN"

fun jhypot :: "jsnum \<Rightarrow> jsnum \<Rightarrow> jsnum" where
  "jhypot (Fin a) (Fin b) = Fin (sqrt (a * a + b * b))"
| "jhypot PInf _ = PInf"
| "jhypot NInf _ = PInf"
| "jhypot _ PInf = PInf"
| "jhypot _ NInf = PInf"
| "jhypot _ _ = NaN"

fun jfloor :: "jsnum \<Rightarrow> jsnum" where
  "jfloor (Fin a) = Fin (of_int \<lfloor>a\<rfloor>)"
| "jfloor x = x"

fun jround :: "jsnum \<Rightarrow> jsnum" where
  "jround (Fin a) = Fin (of_int \<lfloor>a + 1 / 2\<rfloor>)"
| "jround x = x"

text \<open>The comparisons \<^verbatim>\<open><\<close> and \<^verbatim>\<open><=\<close>: false as soon as one side is \<open>NaN\<close>.\<close>

fun jlt :: "jsnum \<Rightarrow> jsnum \<Rightarrow> bool" where
  "jlt (Fin a) (Fin b) = (a < b)"
| "jlt NaN _ = False"
| "jlt _ NaN = False"
| "jlt PInf _ = False"
| "jlt _ PInf = True"
| "jlt NInf NInf = False"
| "jlt NInf _ = True"
| "jlt _ NInf = False"


text \<open>\<^verbatim>\<open>Math.max\<close> and \<^verbatim>\<open>Math.min\<close> of two numbers: \<open>NaN\<close> when either is.\<close>

definition jmax :: "jsnum \<Rightarrow> jsnum \<Rightarrow> jsnum" where
  "jmax a b = (if a = NaN \<or> b = NaN then NaN else if jlt a b then b else a)"

definition jmin :: "jsnum \<Rightarrow> jsnum \<Rightarrow> jsnum" where
  "jmin a b = (if a = NaN \<or> b = NaN then NaN else if jlt b a then b else a)"

text \<open>\<^verbatim>\<open>x || d\<close> on a number: \<open>0\<close> and \<open>NaN\<close> are falsy. \<^verbatim>\<open>isFinite\<close>.\<close>

definition jor :: "jsnum \<Rightarrow> jsnum \<Rightarrow> jsnum" where
  "jor x d = (if x = Fin 0 \<or> x = NaN then d else x)"

fun isFinite :: "jsnum \<Rightarrow> bool" where
  "isFinite (Fin a) = True"
| "isFinite _ = False"

text \<open>
  An indexed read \<^verbatim>\<open>xs[i]\<close> gives \<^verbatim>\<open>undefined\<close> (here \<open>None\<close>) outside the array. The three
  ways the sources consume such a read: \<^verbatim>\<open>xs[i] ?? d\<close> replaces only \<^verbatim>\<open>undefined\<close>,
  \<^verbatim>\<open>xs[i] || d\<close> also replaces \<open>0\<close> and \<open>NaN\<close>, and arithmetic turns \<^verbatim>\<open>undefined\<close> into \<open>NaN\<close>.
\<close>

definition aget :: "'a list \<Rightarrow> int \<Rightarrow> 'a option" where
  "aget xs i = (if 0 \<le> i \<and> i < int (length xs) then Some (xs ! nat i) else None)"

definition nullish :: "jsnum option \<Rightarrow> jsnum \<Rightarrow> jsnum" where
  "nullish v d = (case v of None \<Rightarrow> d | Some x \<Rightarrow> x)"

definition falsy_or :: "jsnum option \<Rightarrow> jsnum \<Rightarrow> jsnum" where
  "falsy_or v d = (case v of None \<Rightarrow> d | Some x \<Rightarrow> jor x d)"

definition num :: "jsnum option \<Rightarrow> jsnum" where
  "num v = (case v of None \<Rightarrow> NaN | Some x \<Rightarrow> x)"

text \<open>\<^verbatim>\<open>let s = 0; for (...) s += x\<close>: the running sum, left to right from \<open>0\<close>.\<close>

definition jsum :: "jsnum list \<Rightarrow> jsnum" where
  "jsum xs = fold (\<lambda>x s. jadd s x) xs (Fin 0)"

section \<open>Frame length\<close>

text \<open>
  \<^verbatim>\<open>function nextPow2(n) { let p = 1; while (p < n) p <<= 1; return p; }\<close>
  (the same text in \<^verbatim>\<open>energy.js\<close> and \<^verbatim>\<open>sections.js\<close>). The operator \<^verbatim>\<open><<=\<close> works on
  32-bit two's complement integers, so \<open>p\<close> is a 32-bit word read as signed. The loop
  need not terminate: not returning is the value \<open>None\<close>.
\<close>

partial_function (option) nextPow2_loop :: "32 word \<Rightarrow> int \<Rightarrow> 32 word option" where
  "nextPow2_loop p n = (if sint p < n then nextPow2_loop (push_bit 1 p) n else Some p)"

definition nextPow2 :: "int \<Rightarrow> int option" where
  "nextPow2 n = map_option sint (nextPow2_loop 1 n)"

text \<open>
  \<^verbatim>\<open>const targetSize = Math.max(2, Math.floor(sampleRate * frameSec));\<close>
  \<^verbatim>\<open>const frameSize = nextPow2(targetSize);\<close>
  (\<^verbatim>\<open>extractAllFeatures\<close>, and with the names \<open>target\<close> and \<open>N\<close> in \<^verbatim>\<open>stftMag\<close>;
  \<^verbatim>\<open>rmsSeries\<close> has them as \<open>desired\<close> and \<open>frame\<close>). The sample rate is a
  non-negative integer and the frame duration a finite number.
\<close>

definition targetSize :: "nat \<Rightarrow> real \<Rightarrow> int" where
  "targetSize sampleRate frameSec = max 2 \<lfloor>real sampleRate * frameSec\<rfloor>"

definition frameLength :: "nat \<Rightarrow> real \<Rightarrow> nat option" where
  "frameLength sampleRate frameSec = map_option nat (nextPow2 (targetSize sampleRate frameSec))"

section \<open>energy.js: unified feature extraction\<close>

text \<open>
  \<^verbatim>\<open>new Float32Array(n)\<close>: a length; \<open>NaN\<close> gives the empty array, and a negative or
  infinite \<open>n\<close> throws a \<^verbatim>\<open>RangeError\<close>. A function that throws or never returns has no
  result, the value \<open>None\<close>.
\<close>

definition array_length :: "jsnum \<Rightarrow> nat option" where
  "array_length n = (case n of
       Fin r \<Rightarrow> if - 1 < r then Some (nat \<lfloor>r\<rfloor>) else None
     | NaN \<Rightarrow> Some 0
     | _ \<Rightarrow> None)"

text \<open>\<^verbatim>\<open>applyHannWindow(buf)\<close>: \<^verbatim>\<open>buf[i] *= 0.5 * (1 - Math.cos((2 * Math.PI * i) / (N - 1)))\<close>.\<close>

definition hann_coeff :: "nat \<Rightarrow> nat \<Rightarrow> jsnum" where
  "hann_coeff N i =
     jmul (Fin (1 / 2))
       (jsub (Fin 1) (jcos (jdiv (Fin (2 * pi * real i)) (Fin (real N - 1)))))"

definition applyHannWindow :: "jsnum list \<Rightarrow> jsnum list" where
  "applyHannWindow buf = map (\<lambda>i. jmul (buf ! i) (hann_coeff (length buf) i)) [0..<length buf]"

text \<open>
  The package \<^verbatim>\<open>fft.js\<close> is a dependency, not part of the repository. Its constructor
  \<^verbatim>\<open>new FFT(size)\<close> throws unless the size is a power of two greater than 1, and
  \<^verbatim>\<open>transform(out, data)\<close> writes the discrete Fourier transform of the interleaved complex
  array \<open>data\<close> (real part at \<open>2 * j\<close>, imaginary part at \<open>2 * j + 1\<close>) to \<open>out\<close>, in the
  same layout. It is modelled by that transform, computed with the arithmetic above.
\<close>

definition fft_size_ok :: "nat \<Rightarrow> bool" where
  "fft_size_ok N = (1 < N \<and> (\<exists>m\<in>set [0..<31]. N = 2 ^ m))"

definition fft_transform :: "jsnum list \<Rightarrow> jsnum list" where
  "fft_transform data =
     (let N = length data div 2 in
      concat (map (\<lambda>k.
        [jsum (map (\<lambda>j. jadd
                 (jmul (data ! (2 * j)) (Fin (cos (2 * pi * real j * real k / real N))))
                 (jmul (data ! (2 * j + 1)) (Fin (sin (2 * pi * real j * real k / real N)))))
               [0..<N]),
         jsum (map (\<lambda>j. jsub
                 (jmul (data ! (2 * j + 1)) (Fin (cos (2 * pi * real j * real k / real N))))
                 (jmul (data ! (2 * j)) (Fin (sin (2 * pi * real j * real k / real N)))))
               [0..<N])])
        [0..<N]))"

text \<open>\<^verbatim>\<open>computeFFT(samples)\<close>: the magnitudes of the bins \<open>[0, N/2)\<close>.\<close>

definition computeFFT :: "jsnum list \<Rightarrow> jsnum list option" where
  "computeFFT samples =
     (let N = length samples in
      if N < 2 then Some [Fin 0, Fin 0]
      else if \<not> fft_size_ok N then None
      else
        let data = concat (map (\<lambda>i. [samples ! i, Fin 0]) [0..<N]);
            out = fft_transform data
        in Some (map (\<lambda>k. jhypot (out ! (2 * k)) (out ! (2 * k + 1))) [0..<N div 2]))"

text \<open>\<^verbatim>\<open>computeNovelty(series)\<close>: positive differences, then the moving average with
  \<^verbatim>\<open>windowSize = 5\<close> on either side, clipped to the series.\<close>

definition novelty_diff :: "jsnum list \<Rightarrow> jsnum list" where
  "novelty_diff series =
     map (\<lambda>i. if i = 0 then Fin 0 else jmax (Fin 0) (jsub (series ! i) (series ! (i - 1))))
       [0..<length series]"

definition novelty_smooth :: "jsnum list \<Rightarrow> nat \<Rightarrow> jsnum" where
  "novelty_smooth nov i =
     (let lo = nat (max 0 (int i - 5));
          hi = nat (min (int (length nov) - 1) (int i + 5));
          st = fold (\<lambda>j (sm, cnt). (jadd sm (nov ! j), cnt + 1)) [lo..<hi + 1] (Fin 0, 0::nat)
      in jdiv (fst st) (Fin (real (snd st))))"

definition computeNovelty :: "jsnum list \<Rightarrow> jsnum list" where
  "computeNovelty series =
     (let nov = novelty_diff series in map (novelty_smooth nov) [0..<length series])"

text \<open>The zero-crossing sign with its dead zone \<^verbatim>\<open>eps = 1e-4\<close>, and one step of the
  crossing count: the state is \<^verbatim>\<open>(prev, crossings)\<close>.\<close>

definition sgn_dz :: "jsnum \<Rightarrow> int" where
  "sgn_dz x = (if jlt (Fin (1 / 10000)) x then 1 else if jlt x (Fin (- (1 / 10000))) then - 1 else 0)"

definition zcr_step :: "int \<Rightarrow> int \<times> nat \<Rightarrow> int \<times> nat" where
  "zcr_step cur st =
     (case st of (prev, crossings) \<Rightarrow>
        (if prev = 0 \<and> cur \<noteq> 0 then cur else if cur \<noteq> 0 then cur else prev,
         if prev \<noteq> 0 \<and> cur \<noteq> 0 \<and> prev \<noteq> cur then crossings + 1 else crossings))"

text \<open>The steps 1 to 6 of the frame loop of \<^verbatim>\<open>extractAllFeatures\<close>. The frame buffer has
  \<open>frameSize\<close> entries, \<^verbatim>\<open>frame[j] = samples[start + j] ?? 0\<close>.\<close>

definition frame_at :: "jsnum list \<Rightarrow> nat \<Rightarrow> nat \<Rightarrow> jsnum list" where
  "frame_at samples start frameSize =
     map (\<lambda>j. nullish (aget samples (int (start + j))) (Fin 0)) [0..<frameSize]"

definition frame_energy :: "jsnum list \<Rightarrow> nat \<Rightarrow> jsnum" where
  "frame_energy frame frameSize =
     jsqrt (jdiv (jsum (map (\<lambda>j. jmul (frame ! j) (frame ! j)) [0..<frameSize]))
                 (Fin (real frameSize)))"

definition frame_zcr :: "jsnum list \<Rightarrow> nat \<Rightarrow> jsnum" where
  "frame_zcr frame frameSize =
     (let mean = jdiv (jsum (map (\<lambda>j. frame ! j) [0..<frameSize])) (Fin (real frameSize));
          prev0 = sgn_dz (jsub (num (aget frame 0)) mean);
          st = fold (\<lambda>j. zcr_step (sgn_dz (jsub (frame ! j) mean))) [1..<frameSize] (prev0, 0)
      in jdiv (Fin (real (snd st))) (Fin (real frameSize - 1)))"

definition frame_centroid :: "jsnum list \<Rightarrow> nat \<Rightarrow> nat \<Rightarrow> jsnum" where
  "frame_centroid mags sampleRate frameSize =
     (let binHz = jdiv (Fin (real sampleRate)) (Fin (real frameSize));
          weightedSum = jsum (map (\<lambda>k. jmul (jmul (Fin (real k)) binHz) (mags ! k)) [0..<length mags]);
          magSum = jsum (map (\<lambda>k. mags ! k) [0..<length mags])
      in if jlt (Fin 0) magSum then jdiv weightedSum magSum else Fin 0)"

definition frame_flux :: "jsnum list option \<Rightarrow> jsnum list \<Rightarrow> jsnum" where
  "frame_flux prevMags mags =
     (case prevMags of
        None \<Rightarrow> Fin 0
      | Some pm \<Rightarrow>
          fold (\<lambda>k flux. let diff = jsub (mags ! k) (num (aget pm (int k)))
                          in if jlt (Fin 0) diff then jadd flux diff else flux)
            [0..<length mags] (Fin 0))"

text \<open>One frame gives its four values (energy, centroid, zcr, spectral flux) and the
  magnitudes kept as \<^verbatim>\<open>prevMags\<close> for the next frame.\<close>

definition analyse_frame ::
  "jsnum list \<Rightarrow> nat \<Rightarrow> nat \<Rightarrow> nat \<Rightarrow> jsnum list option \<Rightarrow> nat
    \<Rightarrow> ((jsnum \<times> jsnum \<times> jsnum \<times> jsnum) \<times> jsnum list) option" where
  "analyse_frame samples sampleRate frameSize hp prevMags i =
     (let frame = frame_at samples (i * hp) frameSize in
      case computeFFT (applyHannWindow frame) of
        None \<Rightarrow> None
      | Some mags \<Rightarrow>
          Some ((frame_energy frame frameSize,
                 frame_centroid mags sampleRate frameSize,
                 frame_zcr frame frameSize,
                 frame_flux prevMags mags), mags))"

fun frames_loop ::
  "jsnum list \<Rightarrow> nat \<Rightarrow> nat \<Rightarrow> nat \<Rightarrow> jsnum list option \<Rightarrow> nat list
    \<Rightarrow> (jsnum \<times> jsnum \<times> jsnum \<times> jsnum) list option" where
  "frames_loop samples sampleRate frameSize hp prevMags [] = Some []"
| "frames_loop samples sampleRate frameSize hp prevMags (i # rest) =
     (case analyse_frame samples sampleRate frameSize hp prevMags i of
        None \<Rightarrow> None
      | Some (row, mags) \<Rightarrow>
          (case frames_loop samples sampleRate frameSize hp (Some mags) rest of
             None \<Rightarrow> None
           | Some rows \<Rightarrow> Some (row # rows)))"

record features =
  energy :: "jsnum list"
  centroid :: "jsnum list"
  zcr :: "jsnum list"
  spectralFlux :: "jsnum list"
  novelty :: "jsnum list"

text \<open>The object \<^verbatim>\<open>extractAllFeatures\<close> returns; its fields carry the prefix \<open>ex_\<close>.\<close>

record extraction =
  ex_features :: features
  ex_frameSec :: jsnum
  ex_frameSize :: nat
  ex_hop :: nat
  ex_nFrames :: nat

text \<open>\<^verbatim>\<open>Math.max(1, Math.floor((samples.length - frameSize) / hop) + 1)\<close>.\<close>

definition frame_count :: "nat \<Rightarrow> nat \<Rightarrow> nat \<Rightarrow> jsnum" where
  "frame_count len frameSize hp =
     jmax (Fin 1)
       (jadd (jfloor (jdiv (Fin (real len - real frameSize)) (Fin (real hp)))) (Fin 1))"

definition extractAllFeatures :: "jsnum list \<Rightarrow> nat \<Rightarrow> real \<Rightarrow> extraction option" where
  "extractAllFeatures samples sampleRate frameSec =
     (case frameLength sampleRate frameSec of
        None \<Rightarrow> None
      | Some frameSize \<Rightarrow>
          let hp = frameSize div 2 in
          (case array_length (frame_count (length samples) frameSize hp) of
             None \<Rightarrow> None
           | Some n \<Rightarrow>
               (case frames_loop samples sampleRate frameSize hp None [0..<n] of
                  None \<Rightarrow> None
                | Some rows \<Rightarrow>
                    Some \<lparr> ex_features =
                             \<lparr> energy = map (\<lambda>(e, c, z, f). e) rows,
                               centroid = map (\<lambda>(e, c, z, f). c) rows,
                               zcr = map (\<lambda>(e, c, z, f). z) rows,
                               spectralFlux = map (\<lambda>(e, c, z, f). f) rows,
                               novelty = computeNovelty (map (\<lambda>(e, c, z, f). e) rows) \<rparr>,
                           ex_frameSec = jdiv (Fin (real hp)) (Fin (real sampleRate)),
                           ex_frameSize = frameSize,
                           ex_hop = hp,
                           ex_nFrames = n \<rparr>)))"

section \<open>energy.js: the legacy extractors\<close>

text \<open>\<^verbatim>\<open>rmsSeries\<close> returns \<^verbatim>\<open>{ series, frameSec: frame / sampleRate }\<close>; a sample is read
  as \<^verbatim>\<open>samples[off + j] || 0\<close>.\<close>

definition rms_frame :: "jsnum list \<Rightarrow> nat \<Rightarrow> nat \<Rightarrow> jsnum" where
  "rms_frame samples off frm =
     jsqrt (jdiv (jsum (map (\<lambda>j. let s = falsy_or (aget samples (int (off + j))) (Fin 0)
                                   in jmul s s) [0..<frm]))
                 (Fin (real frm)))"

definition rmsSeries :: "jsnum list \<Rightarrow> nat \<Rightarrow> real \<Rightarrow> (jsnum list \<times> jsnum) option" where
  "rmsSeries samples sampleRate frameSec =
     (case frameLength sampleRate frameSec of
        None \<Rightarrow> None
      | Some frm \<Rightarrow>
          let hp = frm div 2 in
          (case array_length (frame_count (length samples) frm hp) of
             None \<Rightarrow> None
           | Some n \<Rightarrow>
               Some (map (\<lambda>i. rms_frame samples (i * hp) frm) [0..<n],
                     jdiv (Fin (real frm)) (Fin (real sampleRate)))))"

definition spectralCentroid :: "jsnum list \<Rightarrow> nat \<Rightarrow> real \<Rightarrow> jsnum list option" where
  "spectralCentroid samples sampleRate frameSec =
     map_option (\<lambda>r. centroid (ex_features r)) (extractAllFeatures samples sampleRate frameSec)"

text \<open>\<^verbatim>\<open>zeroCrossingRate\<close> returns \<^verbatim>\<open>{ ratio, perSec, frameSec }\<close>.\<close>

definition zeroCrossingRate ::
  "jsnum list \<Rightarrow> nat \<Rightarrow> real \<Rightarrow> (jsnum list \<times> jsnum list \<times> jsnum) option" where
  "zeroCrossingRate samples sampleRate frameSec =
     map_option (\<lambda>r.
        (zcr (ex_features r),
         map (\<lambda>v. jdiv (jmul v (Fin (real sampleRate))) (Fin (real (ex_frameSize r))))
           (zcr (ex_features r)),
         jdiv (Fin (real (ex_frameSize r))) (Fin (real sampleRate))))
       (extractAllFeatures samples sampleRate frameSec)"

definition noveltyScore :: "jsnum list \<Rightarrow> jsnum list" where
  "noveltyScore series = computeNovelty series"

section \<open>energy.js: hook finding\<close>

text \<open>
  A Hook Candidate: the object \<^verbatim>\<open>findBestHook\<close> or \<^verbatim>\<open>findChorusHook\<close> returns. A property
  the object does not have is \<open>None\<close>: \<^verbatim>\<open>findBestHook\<close> returns
  \<^verbatim>\<open>{ startSec, score, features, frameSec }\<close> and \<^verbatim>\<open>findChorusHook\<close> returns
  \<^verbatim>\<open>{ startSec, score, scoreMin, scoreMax, frameSec, repetition }\<close>. The fields
  \<open>hook_features\<close> and \<open>hook_frameSec\<close> are the properties \<open>features\<close> and \<open>frameSec\<close>.
\<close>

record hook =
  startSec :: jsnum
  score :: jsnum
  scoreMin :: "jsnum option"
  scoreMax :: "jsnum option"
  hook_features :: "features option"
  hook_frameSec :: jsnum
  repetition :: "jsnum list option"

text \<open>A weight profile \<^verbatim>\<open>{ energy, centroid, zcr, novelty }\<close>, and the genre presets.\<close>

record weights =
  w_energy :: real
  w_centroid :: real
  w_zcr :: real
  w_novelty :: real

definition genrePresets :: "string \<Rightarrow> weights option" where
  "genrePresets g =
     (if g = ''pop'' then
        Some \<lparr> w_energy = 3 / 10, w_centroid = 3 / 10, w_zcr = 15 / 100, w_novelty = 25 / 100 \<rparr>
      else if g = ''hiphop'' then
        Some \<lparr> w_energy = 4 / 10, w_centroid = 2 / 10, w_zcr = 25 / 100, w_novelty = 15 / 100 \<rparr>
      else if g = ''electronic'' then
        Some \<lparr> w_energy = 25 / 100, w_centroid = 25 / 100, w_zcr = 2 / 10, w_novelty = 3 / 10 \<rparr>
      else if g = ''rock'' then
        Some \<lparr> w_energy = 45 / 100, w_centroid = 2 / 10, w_zcr = 2 / 10, w_novelty = 15 / 100 \<rparr>
      else if g = ''acoustic'' then
        Some \<lparr> w_energy = 2 / 10, w_centroid = 3 / 10, w_zcr = 1 / 10, w_novelty = 4 / 10 \<rparr>
      else None)"

text \<open>The closure \<^verbatim>\<open>normalize\<close> of \<^verbatim>\<open>findBestHook\<close>; \<^verbatim>\<open>repetitionScore\<close> ends with the
  same statements on its own series.\<close>

definition min_max :: "jsnum list \<Rightarrow> jsnum \<times> jsnum" where
  "min_max arr =
     fold (\<lambda>x (mn, mx). (if jlt x mn then x else mn, if jlt mx x then x else mx)) arr (PInf, NInf)"

definition normalize_arr :: "jsnum list \<Rightarrow> jsnum list" where
  "normalize_arr arr =
     (let mn = fst (min_max arr); mx = snd (min_max arr);
          range = jor (jsub mx mn) (Fin 1)
      in map (\<lambda>x. jdiv (jsub x mn) range) arr)"

text \<open>\<^verbatim>\<open>ps[0] = 0; ps[i + 1] = ps[i] + scores[i]\<close>: the prefix sums, one more than the
  series.\<close>

fun psums :: "jsnum \<Rightarrow> jsnum list \<Rightarrow> jsnum list" where
  "psums a [] = [a]"
| "psums a (x # xs) = a # psums (jadd a x) xs"

text \<open>\<^verbatim>\<open>xs.slice(b, e)\<close> of a typed array, for \<open>b\<close> an index and \<open>e\<close> a number.\<close>

definition slice :: "'a list \<Rightarrow> nat \<Rightarrow> jsnum \<Rightarrow> 'a list" where
  "slice xs b e =
     (case e of
        Fin r \<Rightarrow>
          (if r < 0 then take (nat (int (length xs) + \<lceil>r\<rceil>) - b) (drop b xs)
           else take (nat \<lfloor>r\<rfloor> - b) (drop b xs))
      | PInf \<Rightarrow> drop b xs
      | _ \<Rightarrow> [])"

text \<open>The window scan of \<^verbatim>\<open>findBestHook\<close>, for a window of \<open>win\<close> frames: the state is
  \<^verbatim>\<open>(best, bestIdx)\<close>, and \<open>N\<close> is the normalized novelty.\<close>

definition hook_scan :: "jsnum list \<Rightarrow> jsnum list \<Rightarrow> nat \<Rightarrow> jsnum \<times> nat" where
  "hook_scan scores N win =
     (let L = length scores; ps = psums (Fin 0) scores in
      fold (\<lambda>i (best, bestIdx).
          let entrance = (if 0 < i then jmul (num (aget N (int i - 1))) (Fin (2 / 10)) else Fin 0);
              avg = jadd (jdiv (jsub (ps ! (i + win)) (ps ! i)) (Fin (real win))) entrance
          in if jlt best avg then (avg, i) else (best, bestIdx))
        [0..<L + 1 - win] (NInf, 0))"

text \<open>\<^verbatim>\<open>Math.max(1, Math.floor(windowSec / frameSec))\<close>.\<close>

definition window_frames :: "real \<Rightarrow> jsnum \<Rightarrow> jsnum" where
  "window_frames windowSec frameSec = jmax (Fin 1) (jfloor (jdiv (Fin windowSec) frameSec))"

text \<open>The per-frame weighted score, and the scan for a window of \<open>win\<close> frames as the
  number \<^verbatim>\<open>Math.max(...)\<close> gives it: a window length that is not a finite number admits no
  start (\<^verbatim>\<open>i + win <= L\<close> is false).\<close>

definition weighted_scores ::
  "weights \<Rightarrow> jsnum list \<Rightarrow> jsnum list \<Rightarrow> jsnum list \<Rightarrow> jsnum list \<Rightarrow> nat \<Rightarrow> jsnum list" where
  "weighted_scores wts E C Z N L =
     map (\<lambda>i. jadd (jadd (jadd (jmul (Fin (w_energy wts)) (E ! i))
                                (jmul (Fin (w_centroid wts)) (C ! i)))
                          (jmul (Fin (w_zcr wts)) (Z ! i)))
                    (jmul (Fin (w_novelty wts)) (N ! i))) [0..<L]"

definition window_search :: "jsnum list \<Rightarrow> jsnum list \<Rightarrow> jsnum \<Rightarrow> jsnum \<times> nat" where
  "window_search scores N win =
     (case win of Fin w \<Rightarrow> hook_scan scores N (nat \<lfloor>w\<rfloor>) | _ \<Rightarrow> (NInf, 0))"

text \<open>\<^verbatim>\<open>findBestHook\<close> from the alignment of the features on.\<close>

definition best_hook :: "features \<Rightarrow> jsnum \<Rightarrow> real \<Rightarrow> weights \<Rightarrow> hook" where
  "best_hook fs frameSec windowSec wts =
     (let L = min (min (length (energy fs)) (length (centroid fs)))
                  (min (length (zcr fs)) (length (novelty fs)));
          E = normalize_arr (take L (energy fs));
          C = normalize_arr (take L (centroid fs));
          Z = normalize_arr (take L (zcr fs));
          N = normalize_arr (take L (novelty fs));
          scores = weighted_scores wts E C Z N L;
          win = window_frames windowSec frameSec;
          found = window_search scores N win;
          bestIdx = snd found;
          stop = jadd (Fin (real bestIdx)) win
      in \<lparr> startSec = jmul (Fin (real bestIdx)) frameSec,
           score = fst found,
           scoreMin = None,
           scoreMax = None,
           hook_features = Some \<lparr> energy = slice E bestIdx stop,
                                   centroid = slice C bestIdx stop,
                                   zcr = slice Z bestIdx stop,
                                   spectralFlux = [],
                                   novelty = slice N bestIdx stop \<rparr>,
           hook_frameSec = frameSec,
           repetition = None \<rparr>)"

text \<open>The legacy branch (\<^verbatim>\<open>useUnifiedExtraction\<close> false); its feature object has no
  \<open>spectralFlux\<close>, which nothing reads.\<close>

definition legacy_features :: "jsnum list \<Rightarrow> nat \<Rightarrow> (features \<times> jsnum) option" where
  "legacy_features samples sampleRate =
     (case rmsSeries samples sampleRate (1 / 10) of
        None \<Rightarrow> None
      | Some (en, energyStep) \<Rightarrow>
          (case spectralCentroid samples sampleRate (1 / 10) of
             None \<Rightarrow> None
           | Some cen \<Rightarrow>
               (case zeroCrossingRate samples sampleRate (464 / 10000) of
                  None \<Rightarrow> None
                | Some (zcrRatio, perSec, zStep) \<Rightarrow>
                    Some (\<lparr> energy = en, centroid = cen, zcr = zcrRatio, spectralFlux = [],
                            novelty = noveltyScore en \<rparr>, energyStep))))"

definition findBestHook :: "jsnum list \<Rightarrow> nat \<Rightarrow> real \<Rightarrow> weights \<Rightarrow> bool \<Rightarrow> hook option" where
  "findBestHook samples sampleRate windowSec wts useUnifiedExtraction =
     (case (if useUnifiedExtraction
            then map_option (\<lambda>r. (ex_features r, ex_frameSec r))
                   (extractAllFeatures samples sampleRate (1 / 10))
            else legacy_features samples sampleRate) of
        None \<Rightarrow> None
      | Some (fs, frameSec) \<Rightarrow> Some (best_hook fs frameSec windowSec wts))"





section \<open>sections.js: chroma, self-similarity and repetition\<close>

definition hann :: "nat \<Rightarrow> jsnum list" where
  "hann N = map (hann_coeff N) [0..<N]"

text \<open>\<^verbatim>\<open>function cos(a, b)\<close>: the loop runs over the indices of \<open>a\<close> and reads \<open>b\<close> at
  them.\<close>

definition cos_sim :: "jsnum list \<Rightarrow> jsnum list \<Rightarrow> jsnum" where
  "cos_sim a b =
     (let n = length a;
          dot = jsum (map (\<lambda>i. jmul (a ! i) (num (aget b (int i)))) [0..<n]);
          na = jsum (map (\<lambda>i. jmul (a ! i) (a ! i)) [0..<n]);
          nb = jsum (map (\<lambda>i. jmul (num (aget b (int i))) (num (aget b (int i)))) [0..<n]);
          d = jor (jmul (jsqrt na) (jsqrt nb)) (Fin 1)
      in jdiv dot d)"

definition safeCell :: "jsnum list list \<Rightarrow> int \<Rightarrow> int \<Rightarrow> jsnum" where
  "safeCell S r c =
     (case aget S r of
        None \<Rightarrow> Fin 0
      | Some row \<Rightarrow> if 0 \<le> c \<and> c < int (length row) then row ! nat c else Fin 0)"

text \<open>\<^verbatim>\<open>smooth1D(x, win = 5)\<close>, with \<^verbatim>\<open>half = Math.floor(win / 2)\<close>.\<close>

definition smooth1D :: "jsnum list \<Rightarrow> nat \<Rightarrow> jsnum list" where
  "smooth1D x win =
     (if x = [] \<or> win \<le> 1 then x
      else
        let half = win div 2 in
        map (\<lambda>i.
            let st = fold (\<lambda>j (sm, c).
                         if j < 0 \<or> int (length x) \<le> j then (sm, c)
                         else (jadd sm (x ! nat j), c + 1))
                       [int i - int half .. int i + int half] (Fin 0, 0::nat)
            in jdiv (fst st) (jor (Fin (real (snd st))) (Fin 1)))
          [0..<length x])"

text \<open>\<^verbatim>\<open>stftMag\<close> returns \<^verbatim>\<open>{ mags, frameSec: N / sampleRate }\<close>. The hop is
  \<^verbatim>\<open>Math.max(1, Math.floor(N * hopRatio))\<close>, never zero, so the frame count is an
  integer.\<close>

definition stft_hop :: "nat \<Rightarrow> real \<Rightarrow> nat" where
  "stft_hop N hopRatio = nat (max 1 \<lfloor>real N * hopRatio\<rfloor>)"

definition stft_frames :: "nat \<Rightarrow> nat \<Rightarrow> nat \<Rightarrow> nat" where
  "stft_frames len N H = nat (max 1 (\<lfloor>(real len - real N) / real H\<rfloor> + 1))"

definition stft_frame :: "jsnum list \<Rightarrow> nat \<Rightarrow> nat \<Rightarrow> jsnum list \<Rightarrow> nat \<Rightarrow> jsnum list" where
  "stft_frame samples N H W i =
     (let off = i * H;
          buf = concat (map (\<lambda>j.
                  [jmul (falsy_or (aget samples (int (off + j))) (Fin 0)) (W ! j), Fin 0]) [0..<N]);
          out = fft_transform buf
      in map (\<lambda>k. jhypot (out ! (2 * k)) (out ! (2 * k + 1))) [0..<N div 2])"

definition stftMag ::
  "jsnum list \<Rightarrow> nat \<Rightarrow> real \<Rightarrow> real \<Rightarrow> (jsnum list list \<times> jsnum) option" where
  "stftMag samples sampleRate frameSec hopRatio =
     (case frameLength sampleRate frameSec of
        None \<Rightarrow> None
      | Some N \<Rightarrow>
          let H = stft_hop N hopRatio;
              W = hann N;
              frames = stft_frames (length samples) N H
          in if \<not> fft_size_ok N then None
             else Some (map (stft_frame samples N H W) [0..<frames],
                        jdiv (Fin (real N)) (Fin (real sampleRate))))"

text \<open>\<^verbatim>\<open>chromaFromMag\<close>. The remainder \<^verbatim>\<open>%\<close> truncates towards zero. Inside the loop
  \<open>1 \<le> k < n\<close>, so the frequency is a finite number.\<close>

definition js_rem :: "int \<Rightarrow> int \<Rightarrow> int" where
  "js_rem a b = sgn a * (\<bar>a\<bar> mod \<bar>b\<bar>)"

definition pitch_class :: "real \<Rightarrow> nat" where
  "pitch_class freq =
     (let pitch = 69 + 12 * log 2 (freq / 440)
      in nat (js_rem (js_rem \<lfloor>pitch + 1 / 2\<rfloor> 12 + 12) 12))"

definition chroma_bins :: "jsnum list \<Rightarrow> nat \<Rightarrow> jsnum list" where
  "chroma_bins mag sampleRate =
     (let n = length mag in
      fold (\<lambda>k ch.
          let freq = real k * real sampleRate / (2 * real n) in
          if freq < 80 \<or> 5000 < freq then ch
          else ch[pitch_class freq := jadd (ch ! pitch_class freq) (mag ! k)])
        [1..<n] (replicate 12 (Fin 0)))"

definition chromaFromMag :: "jsnum list \<Rightarrow> nat \<Rightarrow> jsnum list" where
  "chromaFromMag mag sampleRate =
     (let chroma = chroma_bins mag sampleRate;
          s = jsum (map (\<lambda>i. jmul (chroma ! i) (chroma ! i)) [0..<12]);
          nrm = jor (jsqrt s) (Fin 1)
      in map (\<lambda>i. jdiv (chroma ! i) nrm) [0..<12])"

definition chromaSeries ::
  "jsnum list \<Rightarrow> nat \<Rightarrow> real \<Rightarrow> real \<Rightarrow> (jsnum list list \<times> jsnum) option" where
  "chromaSeries samples sampleRate frameSec hopRatio =
     map_option (\<lambda>(mags, step). (map (\<lambda>m. chromaFromMag m sampleRate) mags, step))
       (stftMag samples sampleRate frameSec hopRatio)"

definition selfSimilarity :: "jsnum list list \<Rightarrow> jsnum list list" where
  "selfSimilarity C =
     map (\<lambda>i. map (\<lambda>j. cos_sim (C ! i) (C ! j)) [0..<length C]) [0..<length C]"

text \<open>
  \<^verbatim>\<open>repetitionScore(S, w, opts)\<close>. An option the caller leaves out is \<open>None\<close>. The lags
  \<^verbatim>\<open>for (d = minLag; d <= maxLag; d += lagStep)\<close> are listed by \<open>lag_list\<close>. A stripe is
  the inner loop over \<open>k\<close>, from row \<open>i\<close> and column \<open>c0\<close>; it runs while \<open>k < W\<close>.
\<close>

record rep_opts =
  opt_frameSec :: "jsnum option"
  opt_minLagSec :: "jsnum option"
  opt_maxLagSec :: "jsnum option"
  opt_lagStepSec :: "jsnum option"
  opt_bidirectional :: "bool option"

definition lag_list :: "nat \<Rightarrow> nat \<Rightarrow> nat \<Rightarrow> nat list" where
  "lag_list minLag maxLag lagStep =
     map (\<lambda>t. minLag + t * lagStep) [0..<(maxLag + lagStep - minLag) div lagStep]"

definition stripe :: "jsnum list list \<Rightarrow> real \<Rightarrow> nat \<Rightarrow> int \<Rightarrow> jsnum" where
  "stripe S W i c0 =
     fold (\<lambda>k st. jadd st (safeCell S (int (i + k)) (c0 + int k))) [0..<nat \<lceil>W\<rceil>] (Fin 0)"

definition forward_lags ::
  "jsnum list list \<Rightarrow> real \<Rightarrow> nat list \<Rightarrow> nat \<Rightarrow> jsnum \<times> nat \<Rightarrow> jsnum \<times> nat" where
  "forward_lags S W lags i st =
     fold (\<lambda>d (sm, cnt).
         if real (length S) < real (i + d) + W then (sm, cnt)
         else (jadd sm (jdiv (stripe S W i (int (i + d))) (Fin W)), cnt + 1))
       lags st"

definition backward_lags ::
  "jsnum list list \<Rightarrow> real \<Rightarrow> nat list \<Rightarrow> nat \<Rightarrow> jsnum \<times> nat \<Rightarrow> jsnum \<times> nat" where
  "backward_lags S W lags i st =
     fold (\<lambda>d (sm, cnt).
         if int i - int d < 0 \<or> real (length S) < real_of_int (int i - int d) + W then (sm, cnt)
         else (jadd sm (jdiv (stripe S W i (int i - int d)) (Fin W)), cnt + 1))
       lags st"

text \<open>The value \<^verbatim>\<open>R[i]\<close> before normalization.\<close>

definition rep_raw :: "jsnum list list \<Rightarrow> real \<Rightarrow> nat list \<Rightarrow> bool \<Rightarrow> nat \<Rightarrow> jsnum" where
  "rep_raw S W lags bidir i =
     (let fwd = forward_lags S W lags i (Fin 0, 0);
          st = (if bidir then backward_lags S W lags i fwd else fwd)
      in if snd st \<noteq> 0 then jdiv (fst st) (Fin (real (snd st))) else Fin 0)"

text \<open>
  The result is \<open>None\<close> where the stripe length or a lag bound is not a finite number
  (\<open>w\<close> is \<open>NaN\<close>, the frame step is \<open>0\<close>, or an option is not finite): the loops of the
  source are modelled for finite bounds only. \<^verbatim>\<open>findChorusHook\<close> never calls it so.
\<close>

definition repetitionScore :: "jsnum list list \<Rightarrow> jsnum \<Rightarrow> rep_opts \<Rightarrow> jsnum list option" where
  "repetitionScore S w opts =
     (let N = length S in
      if N = 0 then Some []
      else
        let W = jmax (Fin 1) (jmin w (Fin (real N)));
            frameSec = nullish (opt_frameSec opts) (Fin (464 / 10000));
            minLagSec = nullish (opt_minLagSec opts) (Fin 6);
            maxLagSec = nullish (opt_maxLagSec opts) (Fin 45);
            lagStepSec = nullish (opt_lagStepSec opts) (Fin (25 / 100));
            bidir = (case opt_bidirectional opts of None \<Rightarrow> True | Some b \<Rightarrow> b);
            minLag = jmax (Fin 1) (jround (jdiv minLagSec frameSec));
            maxLag = jmax (jadd minLag (Fin 1)) (jround (jdiv maxLagSec frameSec));
            lagStep = jmax (Fin 1) (jround (jdiv lagStepSec frameSec))
        in (case (W, minLag, maxLag, lagStep) of
              (Fin Wr, Fin a, Fin b, Fin c) \<Rightarrow>
                Some (normalize_arr
                  (map (rep_raw S Wr (lag_list (nat \<lfloor>a\<rfloor>) (nat \<lfloor>b\<rfloor>) (nat \<lfloor>c\<rfloor>)) bidir)
                     [0..<N]))
            | _ \<Rightarrow> None))"

text \<open>The window scan of \<^verbatim>\<open>findChorusHook\<close>: the state is
  \<^verbatim>\<open>(best, bestIdx, scoreMin, scoreMax)\<close>.\<close>

definition chorus_scan :: "jsnum list \<Rightarrow> nat \<Rightarrow> jsnum \<times> nat \<times> jsnum \<times> jsnum" where
  "chorus_scan R W =
     (let ps = psums (Fin 0) R in
      fold (\<lambda>i (best, bestIdx, smin, smax).
          let sc = jdiv (jsub (ps ! (i + W)) (ps ! i)) (Fin (real W))
          in (if jlt best sc then sc else best,
              if jlt best sc then i else bestIdx,
              if jlt sc smin then sc else smin,
              if jlt smax sc then sc else smax))
        [0..<length R + 1 - W] (NInf, 0, PInf, NInf))"

definition safe_default :: "jsnum \<Rightarrow> jsnum list \<Rightarrow> hook" where
  "safe_default frameSec R =
     \<lparr> startSec = Fin 0, score = Fin 0, scoreMin = Some (Fin 0), scoreMax = Some (Fin 1),
       hook_features = None, hook_frameSec = frameSec, repetition = Some R \<rparr>"

definition chorus_opts :: "jsnum \<Rightarrow> real \<Rightarrow> rep_opts" where
  "chorus_opts frameSec windowSec =
     \<lparr> opt_frameSec = Some frameSec,
       opt_minLagSec = Some (Fin 6),
       opt_maxLagSec = Some (jmin (Fin 60) (jmax (Fin 30) (jmul (Fin 3) (Fin windowSec)))),
       opt_lagStepSec = Some (Fin (25 / 100)),
       opt_bidirectional = Some True \<rparr>"

definition findChorusHook :: "jsnum list \<Rightarrow> nat \<Rightarrow> real \<Rightarrow> hook option" where
  "findChorusHook samples sampleRate windowSec =
     (case chromaSeries samples sampleRate (464 / 10000) (1 / 2) of
        None \<Rightarrow> None
      | Some (C, frameSec) \<Rightarrow>
          if length C = 0 then Some (safe_default (Fin (464 / 10000)) [])
          else
            let w = jmax (Fin 8) (jfloor (jdiv (Fin windowSec) frameSec));
                S = selfSimilarity C
            in (case repetitionScore S w (chorus_opts frameSec windowSec) of
                  None \<Rightarrow> None
                | Some Rraw \<Rightarrow>
                    let R = smooth1D Rraw 5 in
                    (case jmax (Fin 1) (jmin w (Fin (real (length R)))) of
                       Fin Wr \<Rightarrow>
                         (case chorus_scan R (nat \<lfloor>Wr\<rfloor>) of
                            (best, bestIdx, smin, smax) \<Rightarrow>
                              if \<not> isFinite best then Some (safe_default frameSec R)
                              else Some \<lparr> startSec = jmul (Fin (real bestIdx)) frameSec,
                                          score = best,
                                          scoreMin = Some smin,
                                          scoreMax = Some smax,
                                          hook_features = None,
                                          hook_frameSec = frameSec,
                                          repetition = Some R \<rparr>)
                     | _ \<Rightarrow> None)))"

section \<open>index.js: the method selector\<close>

text \<open>
  \<^verbatim>\<open>const norm = (s, lo, hi) => (s - lo) / ((hi - lo) || 1);\<close>
  \<^verbatim>\<open>const aN = norm(a.score, a.scoreMin ?? a.score, a.scoreMax ?? a.score + 1e-9);\<close>
  and the same for \<open>b\<close>. The chosen object is the candidate with its \<open>method\<close> and
  \<open>normScore\<close>.
\<close>

datatype hook_method = Energy | Chorus

record chosen =
  ch_hook :: hook
  ch_method :: hook_method
  ch_normScore :: "jsnum option"

definition norm_score :: "jsnum \<Rightarrow> jsnum \<Rightarrow> jsnum \<Rightarrow> jsnum" where
  "norm_score s lo hi = jdiv (jsub s lo) (jor (jsub hi lo) (Fin 1))"

definition normScore_of :: "hook \<Rightarrow> jsnum" where
  "normScore_of a =
     norm_score (score a) (nullish (scoreMin a) (score a))
       (nullish (scoreMax a) (jadd (score a) (Fin (1 / 10 ^ 9))))"

definition auto_pick :: "hook \<Rightarrow> hook \<Rightarrow> chosen" where
  "auto_pick a b =
     (let aN = normScore_of a; bN = normScore_of b in
      if jlt (jmul aN (Fin (105 / 100))) bN
      then \<lparr> ch_hook = b, ch_method = Chorus, ch_normScore = Some bN \<rparr>
      else \<lparr> ch_hook = a, ch_method = Energy, ch_normScore = Some aN \<rparr>)"

text \<open>Step 4 of \<^verbatim>\<open>main\<close>: \<open>chorusAvail\<close> says whether \<^verbatim>\<open>./sections\<close> could be loaded.\<close>

definition pick_method ::
  "string \<Rightarrow> bool \<Rightarrow> jsnum list \<Rightarrow> nat \<Rightarrow> real \<Rightarrow> weights \<Rightarrow> chosen option" where
  "pick_method mth chorusAvail samples sampleRate duration preset =
     (if mth = ''chorus'' then
        (if \<not> chorusAvail then
           map_option (\<lambda>a. \<lparr> ch_hook = a, ch_method = Energy, ch_normScore = None \<rparr>)
             (findBestHook samples sampleRate duration preset True)
         else
           map_option (\<lambda>b. \<lparr> ch_hook = b, ch_method = Chorus, ch_normScore = None \<rparr>)
             (findChorusHook samples sampleRate duration))
      else if mth = ''energy'' then
        map_option (\<lambda>a. \<lparr> ch_hook = a, ch_method = Energy, ch_normScore = None \<rparr>)
          (findBestHook samples sampleRate duration preset True)
      else
        (case findBestHook samples sampleRate duration preset True of
           None \<Rightarrow> None
         | Some a \<Rightarrow>
             if \<not> chorusAvail
             then Some \<lparr> ch_hook = a, ch_method = Energy, ch_normScore = Some (Fin 1) \<rparr>
             else (case findChorusHook samples sampleRate duration of
                     None \<Rightarrow> None
                   | Some b \<Rightarrow> Some (auto_pick a b))))"

section \<open>Reference definitions\<close>


definition brute_step :: "(nat \<Rightarrow> real) \<Rightarrow> nat \<Rightarrow> real option \<times> nat \<Rightarrow> real option \<times> nat" where
  "brute_step val s st =
     (case st of (best, idx) \<Rightarrow>
        (case best of
           None \<Rightarrow> (Some (val s), s)
         | Some b \<Rightarrow> if b < val s then (Some (val s), s) else (best, idx)))"

definition brute_force_best_start :: "(nat \<Rightarrow> real) \<Rightarrow> nat \<Rightarrow> nat" where
  "brute_force_best_start val n = snd (fold (brute_step val) [0..<n] (None, 0))"

text \<open>The two encodings that relate a scan's state to the reference: \<^verbatim>\<open>-Infinity\<close> stands
  for "no window seen yet", and the chorus scan carries two more components.\<close>

definition enc_best :: "real option \<Rightarrow> jsnum" where
  "enc_best b = (case b of None \<Rightarrow> NInf | Some r \<Rightarrow> Fin r)"


text \<open>Predicates on feature values: a non-negative finite number, and a frame whose four
  features are all finite numbers.\<close>

definition jnonneg :: "jsnum \<Rightarrow> bool" where
  "jnonneg x = (case x of Fin r \<Rightarrow> 0 \<le> r | _ \<Rightarrow> False)"

definition finite_row :: "jsnum \<times> jsnum \<times> jsnum \<times> jsnum \<Rightarrow> bool" where
  "finite_row row = (case row of (e, c, z, f) \<Rightarrow> isFinite e \<and> isFinite c \<and> isFinite z \<and> isFinite f)"

text \<open>The centred moving average of radius \<open>r\<close>, with the window clipped at both ends of the
  array, and the positive first difference (the first entry is \<open>0\<close>): the two steps of
  \<^verbatim>\<open>computeNovelty\<close>, and the first of \<^verbatim>\<open>smooth1D\<close>, written over the reals.\<close>

definition centered_mean :: "nat \<Rightarrow> real list \<Rightarrow> nat \<Rightarrow> real" where
  "centered_mean r xs i =
     (let js = [i - r..<Suc (min (length xs - 1) (i + r))]
      in sum_list (map (\<lambda>j. xs ! j) js) / real (length js))"

definition positive_diff :: "real list \<Rightarrow> real list" where
  "positive_diff es = map (\<lambda>i. if i = 0 then 0 else max 0 (es ! i - es ! (i - 1))) [0..<length es]"

text \<open>The real value of a finite number, and the dot product the cosine similarity is
  built from.\<close>

definition fin_val :: "jsnum \<Rightarrow> real" where
  "fin_val x = (case x of Fin r \<Rightarrow> r | _ \<Rightarrow> 0)"

definition dotp :: "real list \<Rightarrow> real list \<Rightarrow> real" where
  "dotp as bs = sum_list (map (\<lambda>i. as ! i * bs ! i) [0..<length as])"

text \<open>A four-frame similarity matrix (symmetric, unit diagonal) with a block of identical
  frames \<open>1..3\<close>, and options that ask for the lags \<open>1\<close> and \<open>2\<close> in both directions at one
  frame per second.\<close>

definition S4 :: "jsnum list list" where
  "S4 = [[Fin 1, Fin 0, Fin 0, Fin 0],
         [Fin 0, Fin 1, Fin 1, Fin 1],
         [Fin 0, Fin 1, Fin 1, Fin 1],
         [Fin 0, Fin 1, Fin 1, Fin 1]]"

definition opts4 :: rep_opts where
  "opts4 = \<lparr> opt_frameSec = Some (Fin 1), opt_minLagSec = Some (Fin 1),
             opt_maxLagSec = Some (Fin 2), opt_lagStepSec = Some (Fin 1),
             opt_bidirectional = Some True \<rparr>"

section \<open>Facts about numbers and frame length\<close>

lemma sint_pow2_32: "k \<le> 30 \<Longrightarrow> sint (2 ^ k :: 32 word) = 2 ^ k"
proof -
  assume k: "k \<le> 30"
  have le: "(2::int) ^ k \<le> 2 ^ 30" using k by (intro power_increasing) auto
  have ge: "(0::int) \<le> 2 ^ k" by simp
  have "sint (word_of_int (2 ^ k) :: 32 word) = signed_take_bit (LENGTH(32) - 1) (2 ^ k)"
    by (rule sint_sbintrunc')
  then have "sint (2 ^ k :: 32 word) = signed_take_bit 31 (2 ^ k)"
    by simp
  also have "\<dots> = 2 ^ k"
  proof (rule signed_take_bit_int_eq_self)
    show "- (2 ^ 31) \<le> (2::int) ^ k" using ge by (rule order_trans[rotated]) simp
    show "(2::int) ^ k < 2 ^ 31" using le by simp
  qed
  finally show ?thesis .
qed

lemma nextPow2_loop_pow:
  "k \<le> 30 \<Longrightarrow> n \<le> 2 ^ 30 \<Longrightarrow>
   \<exists>m. k \<le> m \<and> m \<le> 30 \<and> nextPow2_loop (2 ^ k) n = Some (2 ^ m) \<and> n \<le> 2 ^ m \<and>
       (m = k \<or> 2 ^ (m - 1) < n)"
proof (induction "30 - k" arbitrary: k)
  case 0
  then have k: "k = 30" by simp
  have "nextPow2_loop (2 ^ 30) n = Some (2 ^ 30)"
    using 0(3) by (subst nextPow2_loop.simps) simp
  then show ?case using k 0(3) by auto
next
  case (Suc d)
  then have k: "k < 30" by simp
  show ?case
  proof (cases "2 ^ k < n")
    case False
    then have "nextPow2_loop (2 ^ k) n = Some (2 ^ k)"
      using k by (subst nextPow2_loop.simps) (simp add: sint_pow2_32)
    then show ?thesis using False k by auto
  next
    case True
    have "d = 30 - Suc k" using Suc(2) by simp
    moreover have "Suc k \<le> 30" using k by simp
    ultimately obtain m where m: "Suc k \<le> m" "m \<le> 30"
        "nextPow2_loop (2 ^ Suc k) n = Some (2 ^ m)"
        "n \<le> 2 ^ m" "m = Suc k \<or> 2 ^ (m - 1) < n"
      using Suc(1)[of "Suc k"] Suc(4) by blast
    have "nextPow2_loop (2 ^ k) n = nextPow2_loop (2 ^ Suc k) n"
      using True k
      by (subst nextPow2_loop.simps) (simp add: sint_pow2_32 push_bit_eq_mult mult.commute)
    then show ?thesis using m True by (intro exI[of _ m]) auto
  qed
qed

text \<open>Below \<open>2 ^ 30\<close> the loop returns the least power of two that is at least \<open>n\<close>.\<close>

lemma nextPow2_least:
  assumes "n \<le> 2 ^ 30"
  shows "\<exists>m\<le>30. nextPow2 n = Some (2 ^ m) \<and> n \<le> 2 ^ m \<and> (\<forall>j. n \<le> 2 ^ j \<longrightarrow> m \<le> j)"
proof -
  obtain m where m: "m \<le> 30" "nextPow2_loop (2 ^ 0) n = Some (2 ^ m)" "n \<le> 2 ^ m"
      "m = 0 \<or> 2 ^ (m - 1) < n"
    using nextPow2_loop_pow[of 0 n] assms by blast
  have least: "m \<le> j" if "n \<le> 2 ^ j" for j
  proof (rule ccontr)
    assume "\<not> m \<le> j"
    then have jm: "j \<le> m - 1" and "m \<noteq> 0" by simp_all
    then have "2 ^ (m - 1) < n" using m(4) by simp
    moreover have "(2::int) ^ j \<le> 2 ^ (m - 1)" using jm by (intro power_increasing) auto
    ultimately show False using that by linarith
  qed
  have "nextPow2 n = Some (2 ^ m)"
    using m(1,2) by (simp add: nextPow2_def sint_pow2_32)
  then show ?thesis using m(1,3) least by blast
qed

text \<open>Above \<open>2 ^ 30\<close> the word \<open>p\<close> runs through \<open>2 ^ 31\<close> (negative as a signed value) to
  \<open>0\<close> and stays there: the loop never returns.\<close>

lemma nextPow2_loop_diverges_aux:
  assumes "nextPow2_loop p n = Some y"
  shows "\<not> (2 ^ 30 < n \<and> (p = 0 \<or> p = 2 ^ 31 \<or> (\<exists>k\<le>30. p = 2 ^ k)))"
proof (rule nextPow2_loop.raw_induct[where P = "\<lambda>p n y.
    \<not> (2 ^ 30 < n \<and> (p = 0 \<or> p = 2 ^ 31 \<or> (\<exists>k\<le>30. p = 2 ^ k)))", OF _ assms])
  fix f :: "32 word \<Rightarrow> int \<Rightarrow> 32 word option" and p n y
  assume IH: "\<And>p n y. f p n = Some y \<Longrightarrow>
      \<not> (2 ^ 30 < n \<and> (p = 0 \<or> p = 2 ^ 31 \<or> (\<exists>k\<le>30. p = 2 ^ k)))"
    and step: "(if sint p < n then f (push_bit 1 p) n else Some p) = Some y"
  show "\<not> (2 ^ 30 < n \<and> (p = 0 \<or> p = 2 ^ 31 \<or> (\<exists>k\<le>30. p = 2 ^ k)))"
  proof
    assume a: "2 ^ 30 < n \<and> (p = 0 \<or> p = 2 ^ 31 \<or> (\<exists>k\<le>30. p = 2 ^ k))"
    then have n: "2 ^ 30 < n" by simp
    from a consider "p = 0" | "p = 2 ^ 31" | k where "k \<le> 30" "p = 2 ^ k" by blast
    then show False
    proof cases
      case 1
      then have "f 0 n = Some y" using step n by simp
      then show False using IH[of 0 n y] n by simp
    next
      case 2
      have pb: "push_bit 1 (2 ^ 31 :: 32 word) = 0" by (simp add: push_bit_eq_mult)
      have "sint p < n" using 2 n by simp
      then have "f (push_bit 1 p) n = Some y" using step by simp
      then have "f 0 n = Some y" by (simp only: 2 pb)
      then show False using IH[of 0 n y] n by simp
    next
      case 3
      have "(2::int) ^ k \<le> 2 ^ 30" using 3(1) by (intro power_increasing) auto
      then have "sint p < n" using 3 n by (simp add: sint_pow2_32)
      then have "f (push_bit 1 p) n = Some y" using step by simp
      moreover have "push_bit 1 p = (2::32 word) ^ Suc k"
        using 3(2) by (simp add: push_bit_eq_mult mult.commute)
      ultimately have fk: "f (2 ^ Suc k) n = Some y" by simp
      have c: "(2::32 word) ^ Suc k = 2 ^ 31 \<or> (\<exists>j\<le>30. (2::32 word) ^ Suc k = 2 ^ j)"
      proof (cases "k = 30")
        case True
        then show ?thesis by simp
      next
        case False
        then have "Suc k \<le> 30" using 3(1) by simp
        then show ?thesis by blast
      qed
      show False using IH[OF fk] n c by blast
    qed
  qed
qed

lemma nextPow2_diverges: "2 ^ 30 < n \<Longrightarrow> nextPow2 n = None"
  using nextPow2_loop_diverges_aux[of 1 n]
  by (cases "nextPow2_loop 1 n") (auto simp: nextPow2_def intro: exI[of _ 0])

lemma targetSize_ge2: "2 \<le> targetSize sampleRate frameSec"
  by (simp add: targetSize_def)

lemma jmax_Fin: "jmax (Fin a) (Fin b) = Fin (max a b)"
  by (simp add: jmax_def max_def)

lemma jmin_Fin: "jmin (Fin a) (Fin b) = Fin (min a b)"
  by (simp add: jmin_def min_def)

section \<open>The window scans against the brute-force search\<close>

lemma jlt_enc_best: "jlt (enc_best b) (Fin v) = (case b of None \<Rightarrow> True | Some r \<Rightarrow> r < v)"
  by (cases b) (simp_all add: enc_best_def)






lemma length_psums: "length (psums a xs) = Suc (length xs)"
  by (induction xs arbitrary: a) simp_all







section \<open>Frame length of the spectral passes\<close>

lemma frameLength_least:
  assumes "targetSize sr fs \<le> 2 ^ 30"
  shows "\<exists>m. 1 \<le> m \<and> m \<le> 30 \<and> frameLength sr fs = Some (2 ^ m) \<and> targetSize sr fs \<le> 2 ^ m
           \<and> (\<forall>j. targetSize sr fs \<le> 2 ^ j \<longrightarrow> m \<le> j)"
proof -
  obtain m where m: "m \<le> 30" "nextPow2 (targetSize sr fs) = Some (2 ^ m)"
      "targetSize sr fs \<le> 2 ^ m" "\<forall>j. targetSize sr fs \<le> 2 ^ j \<longrightarrow> m \<le> j"
    using nextPow2_least[OF assms] by blast
  have "m \<noteq> 0"
  proof
    assume "m = 0"
    then have "targetSize sr fs \<le> 1" using m(3) by simp
    then show False using targetSize_ge2[of sr fs] by simp
  qed
  moreover have "nat (2 ^ m) = (2::nat) ^ m"
    by (simp add: nat_power_eq)
  ultimately show ?thesis using m by (intro exI[of _ m]) (simp add: frameLength_def)
qed

lemma frameLength_diverges: "2 ^ 30 < targetSize sr fs \<Longrightarrow> frameLength sr fs = None"
  by (simp add: frameLength_def nextPow2_diverges)

lemma frameLength_Some_pow2:
  assumes "frameLength sr fs = Some N"
  shows "\<exists>m. 1 \<le> m \<and> m \<le> 30 \<and> N = 2 ^ m"
proof (cases "targetSize sr fs \<le> 2 ^ 30")
  case True
  then show ?thesis using frameLength_least[OF True] assms by auto
next
  case False
  then show ?thesis using frameLength_diverges[of sr fs] assms by simp
qed

section \<open>Unified extraction: totality, lengths and finite values\<close>

lemma isFinite_iff: "isFinite x \<longleftrightarrow> (\<exists>r. x = Fin r)"
  by (cases x) auto

lemma jnonneg_iff: "jnonneg x \<longleftrightarrow> (\<exists>r\<ge>0. x = Fin r)"
  by (cases x) (auto simp: jnonneg_def)

lemma jnonneg_isFinite: "jnonneg x \<Longrightarrow> isFinite x"
  by (auto simp: jnonneg_iff)

lemma isFinite_jadd: "isFinite a \<Longrightarrow> isFinite b \<Longrightarrow> isFinite (jadd a b)"
  by (auto simp: isFinite_iff)

lemma isFinite_jsub: "isFinite a \<Longrightarrow> isFinite b \<Longrightarrow> isFinite (jsub a b)"
  by (auto simp: isFinite_iff jsub_def)

lemma isFinite_jmul: "isFinite a \<Longrightarrow> isFinite b \<Longrightarrow> isFinite (jmul a b)"
  by (auto simp: isFinite_iff)

lemma isFinite_jdiv: "isFinite a \<Longrightarrow> isFinite b \<Longrightarrow> b \<noteq> Fin 0 \<Longrightarrow> isFinite (jdiv a b)"
  by (auto simp: isFinite_iff)


lemma isFinite_jcos: "isFinite a \<Longrightarrow> isFinite (jcos a)"
  by (auto simp: isFinite_iff)

lemma isFinite_jhypot: "isFinite a \<Longrightarrow> isFinite b \<Longrightarrow> isFinite (jhypot a b)"
  by (auto simp: isFinite_iff)

lemma isFinite_jsqrt: "jnonneg a \<Longrightarrow> isFinite (jsqrt a)"
  by (auto simp: jnonneg_iff)

lemma jnonneg_jadd: "jnonneg a \<Longrightarrow> jnonneg b \<Longrightarrow> jnonneg (jadd a b)"
  by (auto simp: jnonneg_iff)

lemma jnonneg_square: "isFinite a \<Longrightarrow> jnonneg (jmul a a)"
  by (auto simp: isFinite_iff jnonneg_def)

lemma jnonneg_jdiv_nat: "jnonneg a \<Longrightarrow> jnonneg (jdiv a (Fin (real n)))" if "0 < n"
  using that by (auto simp: jnonneg_iff)

lemma isFinite_fold_jadd:
  "isFinite a \<Longrightarrow> list_all isFinite xs \<Longrightarrow> isFinite (fold (\<lambda>x s. jadd s x) xs a)"
  by (induction xs arbitrary: a) (simp_all add: isFinite_jadd)

lemma jnonneg_fold_jadd:
  "jnonneg a \<Longrightarrow> list_all jnonneg xs \<Longrightarrow> jnonneg (fold (\<lambda>x s. jadd s x) xs a)"
  by (induction xs arbitrary: a) (simp_all add: jnonneg_jadd)

lemma isFinite_jsum: "list_all isFinite xs \<Longrightarrow> isFinite (jsum xs)"
  by (simp add: jsum_def isFinite_fold_jadd)

lemma jnonneg_jsum: "list_all jnonneg xs \<Longrightarrow> jnonneg (jsum xs)"
  unfolding jsum_def by (rule jnonneg_fold_jadd) (simp_all add: jnonneg_def)

lemma list_all_map_upt: "list_all P (map f [0..<n]) \<longleftrightarrow> (\<forall>j<n. P (f j))"
  by (auto simp: list_all_iff)

lemma list_all_nth: "list_all P xs \<Longrightarrow> j < length xs \<Longrightarrow> P (xs ! j)"
  by (simp add: list_all_length)

lemma isFinite_nth: "list_all isFinite xs \<Longrightarrow> j < length xs \<Longrightarrow> isFinite (xs ! j)"
  by (simp add: list_all_length)

lemma length_frame_at: "length (frame_at samples start n) = n"
  by (simp add: frame_at_def)

lemma isFinite_frame_at:
  "list_all isFinite samples \<Longrightarrow> list_all isFinite (frame_at samples start n)"
  by (auto simp: frame_at_def list_all_map_upt aget_def nullish_def list_all_length)

lemma isFinite_frame_energy:
  assumes "list_all isFinite frame" "length frame = n" "0 < n"
  shows "isFinite (frame_energy frame n)"
proof -
  have "list_all jnonneg (map (\<lambda>j. jmul (frame ! j) (frame ! j)) [0..<n])"
    using assms by (simp add: list_all_map_upt jnonneg_square list_all_nth)
  then have "jnonneg (jdiv (jsum (map (\<lambda>j. jmul (frame ! j) (frame ! j)) [0..<n])) (Fin (real n)))"
    using assms(3) by (intro jnonneg_jdiv_nat jnonneg_jsum)
  then show ?thesis by (simp add: frame_energy_def isFinite_jsqrt)
qed

lemma isFinite_frame_zcr:
  assumes "2 \<le> n"
  shows "isFinite (frame_zcr frame n)"
proof -
  have "real n - 1 \<noteq> 0" using assms by simp
  then show ?thesis by (simp add: frame_zcr_def Let_def)
qed

lemma isFinite_hann_coeff: "2 \<le> N \<Longrightarrow> isFinite (hann_coeff N i)"
proof -
  assume "2 \<le> N"
  then have "real N - 1 \<noteq> 0" by simp
  then show ?thesis by (simp add: hann_coeff_def jsub_def)
qed

lemma length_applyHannWindow: "length (applyHannWindow buf) = length buf"
  by (simp add: applyHannWindow_def)

lemma isFinite_applyHannWindow:
  "list_all isFinite buf \<Longrightarrow> 2 \<le> length buf \<Longrightarrow> list_all isFinite (applyHannWindow buf)"
  by (simp add: applyHannWindow_def list_all_map_upt isFinite_jmul isFinite_hann_coeff list_all_nth)

lemma length_concat_pairs: "length (concat (map (\<lambda>i. [f i, g i]) [0..<n])) = 2 * n"
  by (induction n) simp_all

lemma list_all_concat_pairs:
  "list_all P (concat (map (\<lambda>i. [f i, g i]) [0..<n])) \<longleftrightarrow> (\<forall>i<n. P (f i) \<and> P (g i))"
  by (auto simp: list_all_iff)

lemma length_fft_transform: "length (fft_transform data) = 2 * (length data div 2)"
  by (simp add: fft_transform_def Let_def length_concat_pairs)

lemma isFinite_fft_transform:
  assumes "list_all isFinite data"
  shows "list_all isFinite (fft_transform data)"
proof -
  have d: "isFinite (data ! (2 * j))" "isFinite (data ! Suc (2 * j))" if "j < length data div 2" for j
    using that assms by (auto intro!: isFinite_nth)
  show ?thesis
    unfolding fft_transform_def Let_def list_all_concat_pairs
    by (auto intro!: isFinite_jsum isFinite_jadd isFinite_jsub isFinite_jmul d
        simp: list_all_map_upt)
qed

lemma computeFFT_Some:
  assumes "list_all isFinite samples" "fft_size_ok (length samples)"
  shows "\<exists>mags. computeFFT samples = Some mags \<and> length mags = length samples div 2
           \<and> list_all isFinite mags"
proof -
  let ?N = "length samples"
  let ?data = "concat (map (\<lambda>i. [samples ! i, Fin 0]) [0..<?N])"
  have N: "\<not> ?N < 2" using assms(2) by (simp add: fft_size_ok_def)
  have "list_all isFinite ?data"
    using assms(1) by (simp add: list_all_concat_pairs list_all_nth)
  then have out: "list_all isFinite (fft_transform ?data)" by (rule isFinite_fft_transform)
  have len: "length (fft_transform ?data) = 2 * ?N"
    by (simp add: length_fft_transform length_concat_pairs)
  have "isFinite (jhypot (fft_transform ?data ! (2 * k)) (fft_transform ?data ! (2 * k + 1)))"
    if "k < ?N div 2" for k
    using that out len by (intro isFinite_jhypot isFinite_nth) auto
  then show ?thesis
    using N assms(2) by (simp add: computeFFT_def Let_def list_all_map_upt)
qed

lemma isFinite_frame_centroid:
  assumes "list_all isFinite mags" "0 < frameSize"
  shows "isFinite (frame_centroid mags sampleRate frameSize)"
proof -
  let ?binHz = "jdiv (Fin (real sampleRate)) (Fin (real frameSize))"
  let ?ws = "jsum (map (\<lambda>k. jmul (jmul (Fin (real k)) ?binHz) (mags ! k)) [0..<length mags])"
  let ?ms = "jsum (map (\<lambda>k. mags ! k) [0..<length mags])"
  have b: "isFinite ?binHz" using assms(2) by simp
  have ws: "isFinite ?ws"
    using assms(1) b by (intro isFinite_jsum) (simp add: list_all_map_upt isFinite_jmul list_all_nth)
  have ms: "isFinite ?ms"
    using assms(1) by (intro isFinite_jsum) (simp add: list_all_map_upt list_all_nth)
  have "isFinite (jdiv ?ws ?ms)" if "jlt (Fin 0) ?ms"
    using that ws ms by (intro isFinite_jdiv) auto
  then show ?thesis by (simp add: frame_centroid_def Let_def)
qed

lemma isFinite_flux_fold:
  assumes "\<And>k. k \<in> set ks \<Longrightarrow> isFinite (d k)" "isFinite a"
  shows "isFinite (fold (\<lambda>k flux. let diff = d k in if jlt (Fin 0) diff then jadd flux diff else flux) ks a)"
  using assms by (induction ks arbitrary: a) (simp_all add: Let_def isFinite_jadd)

lemma isFinite_frame_flux:
  assumes "list_all isFinite mags"
    and "case prevMags of None \<Rightarrow> True | Some pm \<Rightarrow> list_all isFinite pm \<and> length pm = length mags"
  shows "isFinite (frame_flux prevMags mags)"
proof (cases prevMags)
  case None
  then show ?thesis by (simp add: frame_flux_def)
next
  case (Some pm)
  then have pm: "list_all isFinite pm" "length pm = length mags" using assms(2) by simp_all
  have "isFinite (jsub (mags ! k) (num (aget pm (int k))))" if "k \<in> set [0..<length mags]" for k
    using that pm assms(1) by (auto simp: aget_def num_def intro!: isFinite_jsub isFinite_nth)
  then have "isFinite (fold (\<lambda>k flux. let diff = jsub (mags ! k) (num (aget pm (int k)))
                          in if jlt (Fin 0) diff then jadd flux diff else flux)
            [0..<length mags] (Fin 0))"
    by (intro isFinite_flux_fold[where d = "\<lambda>k. jsub (mags ! k) (num (aget pm (int k)))"]) simp_all
  then show ?thesis
    using Some by (simp add: frame_flux_def)
qed

lemma analyse_frame_Some:
  assumes "list_all isFinite samples" "fft_size_ok frameSize"
    and "case prevMags of None \<Rightarrow> True
         | Some pm \<Rightarrow> list_all isFinite pm \<and> length pm = frameSize div 2"
  shows "\<exists>row mags. analyse_frame samples sampleRate frameSize hp prevMags i = Some (row, mags)
           \<and> finite_row row \<and> list_all isFinite mags \<and> length mags = frameSize div 2"
proof -
  let ?frame = "frame_at samples (i * hp) frameSize"
  have n2: "2 \<le> frameSize" using assms(2) by (simp add: fft_size_ok_def)
  have fr: "list_all isFinite ?frame" "length ?frame = frameSize"
    using assms(1) by (simp_all add: isFinite_frame_at length_frame_at)
  have hw: "list_all isFinite (applyHannWindow ?frame)" "length (applyHannWindow ?frame) = frameSize"
    using fr n2 by (simp_all add: isFinite_applyHannWindow length_applyHannWindow)
  obtain mags where mags: "computeFFT (applyHannWindow ?frame) = Some mags"
      "length mags = frameSize div 2" "list_all isFinite mags"
    using computeFFT_Some[OF hw(1)] hw(2) assms(2) by auto
  have pm: "case prevMags of None \<Rightarrow> True
            | Some pm \<Rightarrow> list_all isFinite pm \<and> length pm = length mags"
    using assms(3) mags(2) by (simp split: option.splits)
  have "finite_row (frame_energy ?frame frameSize, frame_centroid mags sampleRate frameSize,
                    frame_zcr ?frame frameSize, frame_flux prevMags mags)"
    using fr n2 mags(3) pm
    by (simp add: finite_row_def isFinite_frame_energy isFinite_frame_centroid
        isFinite_frame_zcr isFinite_frame_flux)
  then show ?thesis using mags by (simp add: analyse_frame_def Let_def)
qed

lemma frames_loop_Some:
  assumes "list_all isFinite samples" "fft_size_ok frameSize"
  shows "(case prevMags of None \<Rightarrow> True
          | Some pm \<Rightarrow> list_all isFinite pm \<and> length pm = frameSize div 2)
     \<Longrightarrow> \<exists>rows. frames_loop samples sampleRate frameSize hp prevMags ixs = Some rows
           \<and> length rows = length ixs \<and> list_all finite_row rows"
proof (induction ixs arbitrary: prevMags)
  case Nil
  then show ?case by simp
next
  case (Cons i ixs)
  obtain row mags where a: "analyse_frame samples sampleRate frameSize hp prevMags i = Some (row, mags)"
      "finite_row row" "list_all isFinite mags" "length mags = frameSize div 2"
    using analyse_frame_Some[OF assms Cons.prems] by blast
  obtain rows where r: "frames_loop samples sampleRate frameSize hp (Some mags) ixs = Some rows"
      "length rows = length ixs" "list_all finite_row rows"
    using Cons.IH[of "Some mags"] a(3,4) by auto
  show ?case using a r by simp
qed


lemma length_computeNovelty: "length (computeNovelty series) = length series"
  by (simp add: computeNovelty_def Let_def)



lemma smooth_fold:
  "fold (\<lambda>j (sm, cnt). (jadd sm (nov ! j), cnt + 1)) js (a, c)
     = (fold (\<lambda>x s. jadd s x) (map (\<lambda>j. nov ! j) js) a, c + length js)"
  by (induction js arbitrary: a c) simp_all




lemma fft_size_ok_pow2: "1 \<le> m \<Longrightarrow> m \<le> 30 \<Longrightarrow> fft_size_ok (2 ^ m)"
proof -
  assume m: "1 \<le> m" "m \<le> 30"
  have "(2::nat) ^ 1 \<le> 2 ^ m" using m(1) by (intro power_increasing) auto
  then have "1 < (2::nat) ^ m" by simp
  moreover have "m \<in> set [0..<31]" using m(2) by simp
  ultimately show ?thesis unfolding fft_size_ok_def by blast
qed

lemma frameLength_fft_ok: "frameLength sr fs = Some N \<Longrightarrow> fft_size_ok N"
  using frameLength_Some_pow2[of sr fs N] fft_size_ok_pow2 by auto


section \<open>Legacy and unified energy\<close>




lemma legacy_reads_NaN_as_zero:
  "rms_frame [NaN, Fin 1] 0 2 = Fin (sqrt (1 / 2))
   \<and> frame_energy (frame_at [NaN, Fin 1] 0 2) 2 = NaN"
  by (simp add: rms_frame_def frame_energy_def frame_at_def falsy_or_def nullish_def aget_def
      jor_def jsum_def eval_nat_numeral)

section \<open>Moving averages\<close>

lemma fold_jadd_Fin: "fold (\<lambda>x s. jadd s x) (map Fin rs) (Fin a) = Fin (a + sum_list rs)"
  by (induction rs arbitrary: a) (simp_all add: add.assoc)

lemma window_fold_Fin:
  assumes "\<And>j. j \<in> set js \<Longrightarrow> j < length xs"
  shows "fold (\<lambda>j (sm, cnt). (jadd sm (map Fin xs ! j), cnt + 1)) js (Fin 0, 0::nat)
       = (Fin (sum_list (map (\<lambda>j. xs ! j) js)), length js)"
proof -
  have m: "map (\<lambda>j. map Fin xs ! j) js = map Fin (map (\<lambda>j. xs ! j) js)"
    using assms by simp
  show ?thesis
    unfolding smooth_fold m fold_jadd_Fin by simp
qed

lemma novelty_diff_Fin: "novelty_diff (map Fin es) = map Fin (positive_diff es)"
  by (simp add: novelty_diff_def positive_diff_def jsub_def jmax_Fin)

lemma mean_div:
  assumes "n \<noteq> 0"
  shows "jdiv (Fin s) (Fin (real n)) = Fin (s / real n)"
    and "jdiv (Fin s) (jor (Fin (real n)) (Fin 1)) = Fin (s / real n)"
  using assms by (simp_all add: jor_def)

lemma novelty_smooth_Fin:
  assumes "i < length ds"
  shows "novelty_smooth (map Fin ds) i = Fin (centered_mean 5 ds i)"
proof -
  let ?js = "[i - 5..<Suc (min (length ds - 1) (i + 5))]"
  have lo: "nat (max 0 (int i - 5)) = i - 5" by simp
  have hi: "nat (min (int (length (map Fin ds)) - 1) (int i + 5)) + 1
            = Suc (min (length ds - 1) (i + 5))"
    using assms by simp
  have rng: "j < length ds" if "j \<in> set ?js" for j
    using that assms by (simp; arith)
  have cnt: "length ?js \<noteq> 0"
    using assms by (simp; arith)
  have f: "fold (\<lambda>j (sm, cnt). (jadd sm (map Fin ds ! j), cnt + 1)) ?js (Fin 0, 0::nat)
       = (Fin (sum_list (map (\<lambda>j. ds ! j) ?js)), length ?js)"
    by (rule window_fold_Fin) (rule rng)
  show ?thesis
    unfolding novelty_smooth_def Let_def lo hi f fst_conv snd_conv centered_mean_def
    by (rule mean_div(1)) (rule cnt)
qed

lemma computeNovelty_Fin:
  "computeNovelty (map Fin es)
     = map (\<lambda>i. Fin (centered_mean 5 (positive_diff es) i)) [0..<length es]"
proof -
  have len: "length (positive_diff es) = length es" by (simp add: positive_diff_def)
  show ?thesis
    unfolding computeNovelty_def Let_def novelty_diff_Fin
    by (rule map_cong) (simp_all add: novelty_smooth_Fin len)
qed

lemma upto_map_int: "[int a..int b] = map int [a..<Suc b]"
proof (induction b)
  case 0
  then show ?case by (cases "a = 0") simp_all
next
  case (Suc b)
  show ?case
  proof (cases "a \<le> Suc b")
    case True
    then have "[int a..int (Suc b)] = [int a..int (Suc b) - 1] @ [int (Suc b)]"
      by (intro upto_rec2) simp
    moreover have "int (Suc b) - 1 = int b" by simp
    ultimately show ?thesis using True Suc.IH by simp
  next
    case False
    then show ?thesis by simp
  qed
qed

lemma filter_upto_range:
  assumes "i < n"
  shows "filter (\<lambda>j. \<not> (j < 0 \<or> int n \<le> j)) [int i - int h..int i + int h]
       = map int [i - h..<Suc (min (n - 1) (i + h))]"
proof -
  have "filter (\<lambda>j. \<not> (j < 0 \<or> int n \<le> j)) [int i - int h..int i + int h]
      = [int (i - h)..int (min (n - 1) (i + h))]"
  proof (rule sorted_distinct_set_unique)
    show "sorted (filter (\<lambda>j. \<not> (j < 0 \<or> int n \<le> j)) [int i - int h..int i + int h])"
      by (simp add: sorted_wrt_filter)
    show "set (filter (\<lambda>j. \<not> (j < 0 \<or> int n \<le> j)) [int i - int h..int i + int h])
        = set [int (i - h)..int (min (n - 1) (i + h))]"
      using assms by auto
  qed simp_all
  then show ?thesis by (simp only: upto_map_int)
qed

lemma smooth_skip_fold:
  "fold (\<lambda>j (sm, c). if j < 0 \<or> int n \<le> j then (sm, c) else (jadd sm (x ! nat j), c + 1)) js st
   = fold (\<lambda>j (sm, c). (jadd sm (x ! nat j), c + 1)) (filter (\<lambda>j. \<not> (j < 0 \<or> int n \<le> j)) js) st"
  by (induction js arbitrary: st) (auto split: prod.splits)

lemma smooth1D_Fin:
  assumes "1 < win"
  shows "smooth1D (map Fin xs) win
       = map (\<lambda>i. Fin (centered_mean (win div 2) xs i)) [0..<length xs]"
proof (cases "xs = []")
  case True
  then show ?thesis by (simp add: smooth1D_def)
next
  case False
  let ?h = "win div 2"
  have one: "jdiv (fst (fold (\<lambda>j (sm, c). if j < 0 \<or> int (length xs) \<le> j then (sm, c)
                                    else (jadd sm (map Fin xs ! nat j), c + 1))
                          [int i - int ?h..int i + int ?h] (Fin 0, 0::nat)))
                  (jor (Fin (real (snd (fold (\<lambda>j (sm, c). if j < 0 \<or> int (length xs) \<le> j then (sm, c)
                                    else (jadd sm (map Fin xs ! nat j), c + 1))
                          [int i - int ?h..int i + int ?h] (Fin 0, 0::nat))))) (Fin 1))
           = Fin (centered_mean ?h xs i)" if i: "i < length xs" for i
  proof -
    let ?js = "[i - ?h..<Suc (min (length xs - 1) (i + ?h))]"
    have rng: "j < length xs" if "j \<in> set ?js" for j using that i by (simp; arith)
    have "fold (\<lambda>j (sm, c). if j < 0 \<or> int (length xs) \<le> j then (sm, c)
                                    else (jadd sm (map Fin xs ! nat j), c + 1))
                          [int i - int ?h..int i + int ?h] (Fin 0, 0::nat)
          = fold (\<lambda>j (sm, c). (jadd sm (map Fin xs ! nat j), c + 1)) (map int ?js) (Fin 0, 0)"
      unfolding smooth_skip_fold filter_upto_range[OF i] ..
    also have "\<dots> = fold (\<lambda>j (sm, c). (jadd sm (map Fin xs ! j), c + 1)) ?js (Fin 0, 0)"
      by (simp add: fold_map comp_def)
    also have "\<dots> = (Fin (sum_list (map (\<lambda>j. xs ! j) ?js)), length ?js)"
      by (rule window_fold_Fin) (rule rng)
    finally have f: "fold (\<lambda>j (sm, c). if j < 0 \<or> int (length xs) \<le> j then (sm, c)
                                    else (jadd sm (map Fin xs ! nat j), c + 1))
                          [int i - int ?h..int i + int ?h] (Fin 0, 0::nat)
          = (Fin (sum_list (map (\<lambda>j. xs ! j) ?js)), length ?js)" .
    have cnt: "length ?js \<noteq> 0" using i by (simp; arith)
    show ?thesis
      unfolding f fst_conv snd_conv centered_mean_def Let_def
      by (rule mean_div(2)) (rule cnt)
  qed
  show ?thesis
    using False assms unfolding smooth1D_def Let_def
    by (simp add: one)
qed

section \<open>Cosine similarity\<close>

lemma map_Fin_fin_val: "list_all isFinite v \<Longrightarrow> map Fin (map fin_val v) = v"
  by (induction v) (auto simp: isFinite_iff fin_val_def)

lemma jsum_map_Fin: "jsum (map (\<lambda>i. Fin (f i)) js) = Fin (sum_list (map f js))"
  using fold_jadd_Fin[of "map f js" 0] by (simp add: jsum_def comp_def)

lemma cos_sim_Fin:
  assumes "length bs = length as"
  shows "cos_sim (map Fin as) (map Fin bs)
       = Fin (dotp as bs / (if sqrt (dotp as as) * sqrt (dotp bs bs) = 0 then 1
                            else sqrt (dotp as as) * sqrt (dotp bs bs)))"
proof -
  let ?n = "length as"
  have d: "map (\<lambda>i. jmul (map Fin as ! i) (num (aget (map Fin bs) (int i)))) [0..<?n]
         = map (\<lambda>i. Fin (as ! i * bs ! i)) [0..<?n]"
    using assms by (intro map_cong) (simp_all add: aget_def num_def)
  have a: "map (\<lambda>i. jmul (map Fin as ! i) (map Fin as ! i)) [0..<?n]
         = map (\<lambda>i. Fin (as ! i * as ! i)) [0..<?n]"
    by (intro map_cong) simp_all
  have b: "map (\<lambda>i. jmul (num (aget (map Fin bs) (int i))) (num (aget (map Fin bs) (int i)))) [0..<?n]
         = map (\<lambda>i. Fin (bs ! i * bs ! i)) [0..<?n]"
    using assms by (intro map_cong) (simp_all add: aget_def num_def)
  have na: "0 \<le> dotp as as" unfolding dotp_def by (intro sum_list_nonneg) auto
  have nb: "0 \<le> dotp bs bs" unfolding dotp_def by (intro sum_list_nonneg) auto
  have bb: "sum_list (map (\<lambda>i. bs ! i * bs ! i) [0..<?n]) = dotp bs bs"
    using assms by (simp add: dotp_def)
  show ?thesis
    unfolding cos_sim_def Let_def length_map d a b jsum_map_Fin bb
    using na nb by (simp add: dotp_def jor_def)
qed

lemma dotp_commute: "length bs = length as \<Longrightarrow> dotp as bs = dotp bs as"
  by (simp add: dotp_def mult.commute)

lemma dotp_self_zero_iff: "dotp as as = 0 \<longleftrightarrow> (\<forall>x\<in>set as. x = 0)"
proof -
  have "dotp as as = 0 \<longleftrightarrow> (\<forall>x\<in>set (map (\<lambda>i. as ! i * as ! i) [0..<length as]). x = 0)"
    unfolding dotp_def by (intro sum_list_nonneg_eq_0_iff) auto
  also have "\<dots> \<longleftrightarrow> (\<forall>i<length as. as ! i = 0)" by auto
  also have "\<dots> \<longleftrightarrow> (\<forall>x\<in>set as. x = 0)" by (metis in_set_conv_nth)
  finally show ?thesis .
qed

lemma cos_sim_self:
  "cos_sim (map Fin as) (map Fin as) = (if \<forall>x\<in>set as. x = 0 then Fin 0 else Fin 1)"
proof -
  have na: "0 \<le> dotp as as" unfolding dotp_def by (intro sum_list_nonneg) auto
  then have "sqrt (dotp as as) * sqrt (dotp as as) = dotp as as" by simp
  then show ?thesis
    using dotp_self_zero_iff[of as] by (simp add: cos_sim_Fin)
qed

lemma selfSimilarity_nth:
  "i < length C \<Longrightarrow> j < length C \<Longrightarrow> selfSimilarity C ! i ! j = cos_sim (C ! i) (C ! j)"
  by (simp add: selfSimilarity_def)

section \<open>Method selection, short tracks and the chroma frame step\<close>



lemma extractAllFeatures_shape:
  assumes "list_all isFinite samples" "frameLength sampleRate frameSec = Some N"
    and "array_length (frame_count (length samples) N (N div 2)) = Some n"
  shows "\<exists>r. extractAllFeatures samples sampleRate frameSec = Some r
      \<and> ex_frameSec r = jdiv (Fin (real (N div 2))) (Fin (real sampleRate))
      \<and> length (energy (ex_features r)) = n
      \<and> length (centroid (ex_features r)) = n
      \<and> length (zcr (ex_features r)) = n
      \<and> length (novelty (ex_features r)) = n"
proof -
  have ok: "fft_size_ok N" using assms(2) by (rule frameLength_fft_ok)
  obtain rows where rows: "frames_loop samples sampleRate N (N div 2) None [0..<n] = Some rows"
      "length rows = length [0..<n]"
    using frames_loop_Some[OF assms(1) ok, of None sampleRate "N div 2" "[0..<n]"] by auto
  show ?thesis
    using assms(2,3) rows
    by (simp add: extractAllFeatures_def Let_def length_computeNovelty)
qed

lemma hook_scan_no_window:
  "length scores < win \<Longrightarrow> hook_scan scores N win = (NInf, 0)"
  by (simp add: hook_scan_def Let_def)

lemma window_search_no_window:
  "length scores < k \<Longrightarrow> window_search scores N (Fin (real k)) = (NInf, 0)"
  by (simp add: window_search_def hook_scan_no_window)

lemma length_weighted_scores: "length (weighted_scores wts E C Z N L) = L"
  by (simp add: weighted_scores_def)

lemma best_hook_short:
  assumes "window_frames windowSec frameSec = Fin (real k)"
    and "min (min (length (energy fs)) (length (centroid fs)))
             (min (length (zcr fs)) (length (novelty fs))) < k"
    and "isFinite frameSec"
  shows "score (best_hook fs frameSec windowSec wts) = NInf"
    and "startSec (best_hook fs frameSec windowSec wts) = Fin 0"
proof -
  obtain f where f: "frameSec = Fin f" using assms(3) by (auto simp: isFinite_iff)
  have s: "window_search (weighted_scores wts E C Z N
              (min (min (length (energy fs)) (length (centroid fs)))
                   (min (length (zcr fs)) (length (novelty fs))))) N (Fin (real k)) = (NInf, 0)"
    for E C Z N
    using assms(2) by (intro window_search_no_window) (simp add: length_weighted_scores)
  show "score (best_hook fs frameSec windowSec wts) = NInf"
    unfolding best_hook_def Let_def assms(1) s by simp
  show "startSec (best_hook fs frameSec windowSec wts) = Fin 0"
    unfolding best_hook_def Let_def assms(1) s by (simp add: f)
qed

section \<open>A repetition score at the matrix edge\<close>

lemma lags4: "lag_list 1 2 1 = [1, 2]"
  by (simp add: lag_list_def upt_conv_Cons)

lemma raw4:
  "map (rep_raw S4 2 [1, 2] True) [0..<4] = [Fin (1 / 2), Fin (3 / 4), Fin (3 / 4), Fin (1 / 2)]"
  by (simp add: rep_raw_def forward_lags_def backward_lags_def stripe_def safeCell_def aget_def
      S4_def Let_def upt_conv_Cons)

section \<open>The first maximum of the reference search, and the selection rule\<close>

lemma brute_fold_first_max:
  "fold (brute_step val) [0..<n] (None, 0) = (b, k) \<Longrightarrow> 0 < n \<Longrightarrow>
   b = Some (val k) \<and> k < n \<and> (\<forall>s<n. val s \<le> val k) \<and> (\<forall>s<k. val s < val k)"
proof (induction n arbitrary: b k)
  case 0
  then show ?case by simp
next
  case (Suc n)
  obtain b0 k0 where r: "fold (brute_step val) [0..<n] (None, 0) = (b0, k0)"
    by (cases "fold (brute_step val) [0..<n] (None, 0)")
  have step: "brute_step val n (b0, k0) = (b, k)" using Suc.prems(1) r by simp
  show ?case
  proof (cases "n = 0")
    case True
    then have "b0 = None" using r by simp
    then show ?thesis using step True by (auto simp: brute_step_def)
  next
    case False
    then have IH: "b0 = Some (val k0)" "k0 < n" "\<forall>s<n. val s \<le> val k0" "\<forall>s<k0. val s < val k0"
      using Suc.IH[OF r] by simp_all
    show ?thesis
    proof (cases "val k0 < val n")
      case True
      then have "b = Some (val n)" "k = n" using step IH(1) by (auto simp: brute_step_def)
      moreover have "\<forall>s<n. val s < val n" using IH(3) True by force
      ultimately show ?thesis by (auto simp: less_Suc_eq less_imp_le)
    next
      case False
      then have "b = b0" "k = k0" using step IH(1) by (auto simp: brute_step_def)
      then show ?thesis using IH False by (auto simp: less_Suc_eq)
    qed
  qed
qed

lemma brute_force_best_start_first_max:
  assumes "0 < n"
  shows "brute_force_best_start val n < n"
    and "\<forall>s<n. val s \<le> val (brute_force_best_start val n)"
    and "\<forall>s<brute_force_best_start val n. val s < val (brute_force_best_start val n)"
proof -
  obtain b k where r: "fold (brute_step val) [0..<n] (None, 0) = (b, k)"
    by (cases "fold (brute_step val) [0..<n] (None, 0)")
  have k: "brute_force_best_start val n = k" using r by (simp add: brute_force_best_start_def)
  show "brute_force_best_start val n < n"
    and "\<forall>s<n. val s \<le> val (brute_force_best_start val n)"
    and "\<forall>s<brute_force_best_start val n. val s < val (brute_force_best_start val n)"
    unfolding k using brute_fold_first_max[OF r assms] by simp_all
qed

lemma auto_pick_rule:
  "ch_method (auto_pick a b) = Chorus
     \<longleftrightarrow> jlt (jmul (normScore_of a) (Fin (105 / 100))) (normScore_of b)"
  by (simp add: auto_pick_def Let_def)

lemma auto_pick_with_ranges:
  "ch_method (auto_pick
      \<lparr> startSec = Fin 30, score = Fin (80 / 100), scoreMin = Some (Fin 0), scoreMax = Some (Fin 1),
        hook_features = None, hook_frameSec = Fin (1 / 10), repetition = None \<rparr>
      \<lparr> startSec = Fin 60, score = Fin (83 / 100), scoreMin = Some (Fin 0), scoreMax = Some (Fin 1),
        hook_features = None, hook_frameSec = Fin (1 / 10), repetition = None \<rparr>) = Energy"
  "ch_method (auto_pick
      \<lparr> startSec = Fin 30, score = Fin (80 / 100), scoreMin = Some (Fin 0), scoreMax = Some (Fin 1),
        hook_features = None, hook_frameSec = Fin (1 / 10), repetition = None \<rparr>
      \<lparr> startSec = Fin 60, score = Fin (90 / 100), scoreMin = Some (Fin 0), scoreMax = Some (Fin 1),
        hook_features = None, hook_frameSec = Fin (1 / 10), repetition = None \<rparr>) = Chorus"
  by (simp_all add: auto_pick_def normScore_of_def norm_score_def nullish_def jsub_def jor_def Let_def)

section \<open>Claims\<close>











text \<open>
  C4 (amended). The novelty series is smoothed with a centered moving average of radius
  5, and the repetition series with one of radius 2 (\<^verbatim>\<open>smooth1D(Rraw, 5)\<close> takes the window
  width 5 and halves it): each output value is the mean of the input over the indices
  \<open>[i - r, i + r]\<close> clipped to the series bounds. Stated on finite series: the input of the
  novelty smoothing is the series of positive differences.
\<close>

theorem smoothing_radii:
  "computeNovelty (map Fin es)
     = map (\<lambda>i. Fin (centered_mean 5 (positive_diff es) i)) [0..<length es]
   \<and> smooth1D (map Fin xs) 5 = map (\<lambda>i. Fin (centered_mean 2 xs i)) [0..<length xs]"
  using computeNovelty_Fin[of es] smooth1D_Fin[of 5 xs] by simp

text \<open>
  C4 as stated fails for the repetition series: on \<open>[1, 0, 0, 0, 0, 0]\<close> the value of
  \<^verbatim>\<open>smooth1D\<close> at index 3 is 0, while the mean over the radius 5 is \<open>1 / 6\<close>.
\<close>

theorem smooth1D_radius_counterexample:
  "smooth1D (map Fin [1, 0, 0, 0, 0, 0]) 5 ! 3 = Fin 0
   \<and> centered_mean 5 [1, 0, 0, 0, 0, 0] 3 = 1 / 6"
proof -
  have a: "smooth1D (map Fin [1, 0, 0, 0, 0, 0]) 5 ! 3 = Fin (centered_mean 2 [1, 0, 0, 0, 0, 0] 3)"
    using smooth1D_Fin[of 5 "[1, 0, 0, 0, 0, 0]"] by (simp del: upt_Suc)
  have b: "centered_mean 2 [1, 0, 0, 0, 0, 0] 3 = 0"
    by (simp add: centered_mean_def upt_conv_Cons)
  have c: "centered_mean 5 [1, 0, 0, 0, 0, 0] 3 = 1 / 6"
    by (simp add: centered_mean_def upt_conv_Cons)
  show ?thesis using a b c by simp
qed

text \<open>
  C5 (amended). For every sequence of chroma vectors (finite entries, one common
  length), the self-similarity matrix is symmetric, and a diagonal entry is exactly 1
  unless its chroma vector is the zero vector, where the guard \<^verbatim>\<open>|| 1\<close> of \<^verbatim>\<open>cos\<close> makes it
  0.
\<close>

theorem selfSimilarity_symmetric_unit_diagonal:
  assumes "list_all (\<lambda>v. length v = n \<and> list_all isFinite v) C"
    and "i < length C" and "j < length C"
  shows "selfSimilarity C ! i ! j = selfSimilarity C ! j ! i
       \<and> selfSimilarity C ! i ! i = (if list_all (\<lambda>x. x = Fin 0) (C ! i) then Fin 0 else Fin 1)"
proof -
  let ?a = "map fin_val (C ! i)" and ?b = "map fin_val (C ! j)"
  have all: "\<forall>v\<in>set C. length v = n \<and> list_all isFinite v"
    using assms(1) by (simp add: list_all_iff)
  have ci: "C ! i \<in> set C" and cj: "C ! j \<in> set C" using assms(2,3) by simp_all
  have a: "map Fin ?a = C ! i" using all ci by (intro map_Fin_fin_val) auto
  have b: "map Fin ?b = C ! j" using all cj by (intro map_Fin_fin_val) auto
  have len: "length ?b = length ?a" using all ci cj by simp
  have sym: "cos_sim (C ! i) (C ! j) = cos_sim (C ! j) (C ! i)"
    using cos_sim_Fin[OF len] cos_sim_Fin[OF len[symmetric]] dotp_commute[OF len]
    unfolding a b by (simp add: mult.commute)
  have z: "(\<forall>x\<in>set ?a. x = 0) \<longleftrightarrow> list_all (\<lambda>x. x = Fin 0) (C ! i)"
  proof -
    have "list_all (\<lambda>x. x = Fin 0) (map Fin ?a) \<longleftrightarrow> (\<forall>x\<in>set ?a. x = 0)"
      by (simp add: list_all_iff)
    then show ?thesis unfolding a by simp
  qed
  have diag: "cos_sim (C ! i) (C ! i) = (if list_all (\<lambda>x. x = Fin 0) (C ! i) then Fin 0 else Fin 1)"
    using cos_sim_self[of ?a] unfolding a z .
  show ?thesis
    using sym diag assms(2,3) by (simp add: selfSimilarity_nth)
qed

theorem selfSimilarity_symmetric_unit_diagonal_witness:
  "list_all (\<lambda>v. length v = 2 \<and> list_all isFinite v) [[Fin 3, Fin 4], [Fin 0, Fin 0]]
   \<and> (0::nat) < length [[Fin 3, Fin 4], [Fin 0, Fin 0]]
   \<and> (1::nat) < length [[Fin 3, Fin 4], [Fin 0, Fin 0]]
   \<and> selfSimilarity [[Fin 3, Fin 4], [Fin 0, Fin 0]] ! 0 ! 1
       = selfSimilarity [[Fin 3, Fin 4], [Fin 0, Fin 0]] ! 1 ! 0
   \<and> selfSimilarity [[Fin 3, Fin 4], [Fin 0, Fin 0]] ! 0 ! 0 = Fin 1"
proof -
  let ?C = "[[Fin 3, Fin 4], [Fin 0, Fin 0]]"
  have h1: "list_all (\<lambda>v. length v = 2 \<and> list_all isFinite v) ?C" by simp
  have h2: "(0::nat) < length ?C" by simp
  have h3: "(1::nat) < length ?C" by simp
  have "selfSimilarity ?C ! 0 ! 1 = selfSimilarity ?C ! 1 ! 0
      \<and> selfSimilarity ?C ! 0 ! 0 = (if list_all (\<lambda>x. x = Fin 0) (?C ! 0) then Fin 0 else Fin 1)"
    by (rule selfSimilarity_symmetric_unit_diagonal[OF h1 h2 h3])
  then show ?thesis using h1 h2 h3 by simp
qed

text \<open>
  C5 as stated fails on a zero chroma vector (a silent frame): the diagonal entry is 0.
\<close>

theorem selfSimilarity_zero_vector_counterexample:
  "selfSimilarity [replicate 12 (Fin 0)] ! 0 ! 0 = Fin 0"
proof -
  have "cos_sim (map Fin (replicate 12 0)) (map Fin (replicate 12 0)) = Fin 0"
    by (subst cos_sim_self) simp
  then show ?thesis by (simp add: selfSimilarity_nth)
qed


text \<open>
  C2 (code defect). On the empty buffer at 22050 Hz with a 17 s window, \<^verbatim>\<open>findBestHook\<close>
  has one frame and a window of 183 frames: no window start is valid, and it returns
  start 0 with the score \<^verbatim>\<open>-Infinity\<close>, not 0.
\<close>

theorem findBestHook_short_track_minus_infinity:
  "map_option score (findBestHook [] 22050 17 wts True) = Some NInf
   \<and> map_option startSec (findBestHook [] 22050 17 wts True) = Some (Fin 0)"
proof -
  have fl: "frameLength 22050 (1 / 10) = Some 4096"
    by (simp add: frameLength_def targetSize_def nextPow2_def nextPow2_loop.simps)
  have n: "array_length (frame_count (length ([] :: jsnum list)) 4096 (4096 div 2)) = Some 1"
    by (simp add: array_length_def frame_count_def jmax_Fin)
  obtain r where r: "extractAllFeatures [] 22050 (1 / 10) = Some r"
      "ex_frameSec r = jdiv (Fin (real (4096 div 2))) (Fin (real 22050))"
      "length (energy (ex_features r)) = 1" "length (centroid (ex_features r)) = 1"
      "length (zcr (ex_features r)) = 1" "length (novelty (ex_features r)) = 1"
    using extractAllFeatures_shape[OF _ fl n] by auto
  have fs: "ex_frameSec r = Fin (2048 / 22050)" using r(2) by simp
  have "\<lfloor>17 / (2048 / 22050 :: real)\<rfloor> = 183" by simp
  then have win: "window_frames 17 (ex_frameSec r) = Fin (real 183)"
    unfolding fs by (simp add: window_frames_def jmax_Fin)
  have L: "min (min (length (energy (ex_features r))) (length (centroid (ex_features r))))
             (min (length (zcr (ex_features r))) (length (novelty (ex_features r)))) < 183"
    using r by simp
  have fin: "isFinite (ex_frameSec r)" using fs by simp
  show ?thesis
    using r(1) best_hook_short[OF win L fin, of wts]
    by (simp add: findBestHook_def)
qed

text \<open>
  C3 (code defect). \<^verbatim>\<open>stftMag\<close> returns the frame length over the sample rate as its
  frame step: at 22050 Hz and 0.0464 s that is 1024 / 22050 s, while consecutive frames
  are one hop of 512 samples apart, the step \<^verbatim>\<open>extractAllFeatures\<close> reports.
\<close>

theorem stftMag_frameSec_is_frame_length:
  "map_option snd (stftMag [] 22050 (464 / 10000) (1 / 2)) = Some (Fin (1024 / 22050))
   \<and> map_option (\<lambda>N. stft_hop N (1 / 2)) (frameLength 22050 (464 / 10000)) = Some 512
   \<and> map_option ex_frameSec (extractAllFeatures [] 22050 (464 / 10000)) = Some (Fin (512 / 22050))"
proof -
  have fl: "frameLength 22050 (464 / 10000) = Some 1024"
    by (simp add: frameLength_def targetSize_def nextPow2_def nextPow2_loop.simps)
  have ok: "fft_size_ok 1024" using fl by (rule frameLength_fft_ok)
  have a: "map_option snd (stftMag [] 22050 (464 / 10000) (1 / 2)) = Some (Fin (1024 / 22050))"
    unfolding stftMag_def fl Let_def using ok by simp
  have b: "map_option (\<lambda>N. stft_hop N (1 / 2)) (frameLength 22050 (464 / 10000)) = Some 512"
    unfolding fl by (simp add: stft_hop_def)
  have n: "array_length (frame_count (length ([] :: jsnum list)) 1024 (1024 div 2)) = Some 1"
    by (simp add: array_length_def frame_count_def jmax_Fin)
  obtain r where r: "extractAllFeatures [] 22050 (464 / 10000) = Some r"
      "ex_frameSec r = jdiv (Fin (real (1024 div 2))) (Fin (real 22050))"
    using extractAllFeatures_shape[OF _ fl n] by auto
  have c: "map_option ex_frameSec (extractAllFeatures [] 22050 (464 / 10000)) = Some (Fin (512 / 22050))"
    using r by simp
  show ?thesis using a b c by simp
qed

text \<open>
  C6 (code defect). In the backward direction \<^verbatim>\<open>repetitionScore\<close> tests the columns of a
  stripe only. On the \<open>4 \<times> 4\<close> matrix \<open>S4\<close> with stripes of 2 frames and lags 1 and 2, the
  last frame has no stripe inside the matrix: its two backward stripes leave the rows
  after one cell, yet both are counted, each with a zero for the missing cell, and the
  raw score is \<open>1 / 2\<close>, not 0.
\<close>

theorem repetitionScore_counts_row_overflow:
  "rep_raw S4 2 [1, 2] True 3 = Fin (1 / 2)
   \<and> repetitionScore S4 (Fin 2) opts4 = Some [Fin 0, Fin 1, Fin 1, Fin 0]"
proof -
  have a: "rep_raw S4 2 [1, 2] True 3 = Fin (1 / 2)"
    by (simp add: rep_raw_def forward_lags_def backward_lags_def stripe_def safeCell_def aget_def
      S4_def Let_def upt_conv_Cons)
  have len: "length S4 = 4" by (simp add: S4_def)
  have n: "normalize_arr [Fin (1 / 2), Fin (3 / 4), Fin (3 / 4), Fin (1 / 2)]
         = [Fin 0, Fin 1, Fin 1, Fin 0]"
    by (simp add: normalize_arr_def min_max_def jsub_def jor_def)
  have r: "repetitionScore S4 (Fin 2) opts4
      = Some (normalize_arr (map (rep_raw S4 2 (lag_list 1 2 1) True) [0..<4]))"
    by (simp add: repetitionScore_def len opts4_def nullish_def jmax_Fin jmin_Fin Let_def)
  show ?thesis unfolding r lags4 raw4 n using a by simp
qed

end
